theory Spec2Isabelle
  imports Main
begin

section \<open>RefreshLakehouseMetadata.py: data model\<close>

text \<open>
  The script talks to the Fabric REST service. Every JSON object of a listing
  (\<^verbatim>\<open>{id, displayName, type}\<close>) is a record: the script indexes \<^verbatim>\<open>['id']\<close> and
  \<^verbatim>\<open>['displayName']\<close> without a check, so listed objects are taken to carry both;
  \<^verbatim>\<open>item.get('type')\<close> may be absent, so the type is optional. A Python string is
  modelled by its UTF-8 encoding; equality and \<^verbatim>\<open>in\<close> on the encodings are equality and
  containment of the strings.
\<close>

record item =
  item_id :: string
  displayName :: string
  item_type :: "string option"

text \<open>
  An HTTP response as the script reads it: \<^verbatim>\<open>status_code\<close>, \<^verbatim>\<open>text\<close>,
  \<^verbatim>\<open>headers.get('Location')\<close> and \<^verbatim>\<open>json().get('value', [])\<close> (the body of a listing
  is taken to be a JSON object; a missing \<^verbatim>\<open>value\<close> is the empty list).
\<close>

record response =
  status_code :: int
  body_text :: string
  location :: "string option"
  json_value :: "item list"

text \<open>
  Every \<^verbatim>\<open>raise Exception(f"...")\<close> of the script is one constructor, carrying the
  values its message interpolates.
\<close>

datatype error =
    LakehousesFailed int string
  | NotFound string "string list"
  | ItemsFailed int string
  | NoMatchingEndpoint string "string list"
  | TriggerFailed int string
  | PollFailed int string
  | RefreshTimedOut int

text \<open>What the script does to the outside world, in order.\<close>

datatype event =
    ListLakehouses
  | ListSqlEndpoints
  | ListItems
  | RefreshMetadata string
  | GetStatus string
  | Sleep int

text \<open>
  The service as seen for one workspace and one bearer token: the answers to the three
  listing URLs, to the refresh POST of an endpoint id, and to the k-th GET of a status
  URL. \<open>status_latency k\<close> is the number of seconds the k-th status request takes and
  \<open>clock_start\<close> is what \<^verbatim>\<open>time.time()\<close> reads when polling begins. Time is counted in
  whole seconds and advances only by requests and by \<^verbatim>\<open>time.sleep\<close>.
\<close>

record backend =
  lakehouses_api :: response
  sqlendpoints_api :: response
  items_api :: response
  refresh_api :: "string \<Rightarrow> response"
  status_api :: "string \<Rightarrow> nat \<Rightarrow> response"
  status_latency :: "nat \<Rightarrow> nat"
  clock_start :: int

text \<open>
  The collaborators of the script: \<^verbatim>\<open>notebookutils.credentials.getToken\<close>, the
  service, addressed by workspace id and token, and Python's \<^verbatim>\<open>str.lower()\<close>. The last
  is Unicode-aware and does not act character by character (a capital sigma lowers to
  one of two letters, depending on what surrounds it), so it is a parameter: nothing is
  assumed of it.
\<close>

record env =
  getToken :: "string \<Rightarrow> string"
  fabric :: "string \<Rightarrow> string \<Rightarrow> backend"
  str_lower :: "string \<Rightarrow> string"

record world =
  now :: int
  trace :: "event list"

section \<open>Strings\<close>

fun starts_with :: "string \<Rightarrow> string \<Rightarrow> bool" where
  "starts_with [] s = True"
| "starts_with (c # cs) [] = False"
| "starts_with (c # cs) (d # ds) = (c = d \<and> starts_with cs ds)"

text \<open>Python's \<^verbatim>\<open>sub in s\<close> on strings: \<open>sub\<close> occurs in \<open>s\<close> as a contiguous block.\<close>

fun py_in :: "string \<Rightarrow> string \<Rightarrow> bool" where
  "py_in sub [] = (sub = [])"
| "py_in sub (c # cs) = (starts_with sub (c # cs) \<or> py_in sub cs)"

section \<open>get_sql_endpoint_for_lakehouse\<close>

text \<open>Lines 21-31: the first lakehouse with that display name, or the NotFound error.\<close>

definition find_lakehouse :: "item list \<Rightarrow> string \<Rightarrow> error + item" where
  "find_lakehouse lakehouses lakehouse_name =
     (case find (\<lambda>lakehouse. displayName lakehouse = lakehouse_name) lakehouses of
        Some target_lakehouse \<Rightarrow> Inr target_lakehouse
      | None \<Rightarrow> Inl (NotFound lakehouse_name (map displayName lakehouses)))"

text \<open>
  Lines 65-66: the condition of the first loop of the items path. Here and below
  \<open>lower\<close> stands for \<^verbatim>\<open>str.lower()\<close>.
\<close>

definition marker_match :: "(string \<Rightarrow> string) \<Rightarrow> string \<Rightarrow> item \<Rightarrow> bool" where
  "marker_match lower lakehouse_name endpoint =
     (let endpoint_name = lower (displayName endpoint)
      in py_in (lower lakehouse_name) endpoint_name \<and>
         (py_in ''sql'' endpoint_name \<or> py_in ''analytics'' endpoint_name))"

text \<open>Line 73: the condition of the second loop of the items path.\<close>

definition exact_match :: "(string \<Rightarrow> string) \<Rightarrow> string \<Rightarrow> item \<Rightarrow> bool" where
  "exact_match lower lakehouse_name endpoint =
     (lower (displayName endpoint) = lower lakehouse_name)"

text \<open>Lines 96-97: the condition of the only loop of the direct path.\<close>

definition relaxed_match :: "(string \<Rightarrow> string) \<Rightarrow> string \<Rightarrow> item \<Rightarrow> bool" where
  "relaxed_match lower lakehouse_name endpoint =
     (let endpoint_name = lower (displayName endpoint)
      in py_in (lower lakehouse_name) endpoint_name \<or>
         lower (displayName endpoint) = lower lakehouse_name)"

text \<open>Lines 62-75: two loops, the second only when the first found nothing.\<close>

definition select_items_path ::
  "(string \<Rightarrow> string) \<Rightarrow> item list \<Rightarrow> string \<Rightarrow> item option" where
  "select_items_path lower sql_endpoints lakehouse_name =
     (case find (marker_match lower lakehouse_name) sql_endpoints of
        Some target_sql_endpoint \<Rightarrow> Some target_sql_endpoint
      | None \<Rightarrow> find (exact_match lower lakehouse_name) sql_endpoints)"

text \<open>Lines 93-99.\<close>

definition select_direct_path ::
  "(string \<Rightarrow> string) \<Rightarrow> item list \<Rightarrow> string \<Rightarrow> item option" where
  "select_direct_path lower sql_endpoints lakehouse_name =
     find (relaxed_match lower lakehouse_name) sql_endpoints"

text \<open>Line 54: the client-side filter of the generic items listing.\<close>

definition sql_endpoints_of_items :: "item list \<Rightarrow> item list" where
  "sql_endpoints_of_items items =
     filter (\<lambda>item. item_type item = Some ''SQLEndpoint'') items"

definition get_sql_endpoint_for_lakehouse ::
  "env \<Rightarrow> string \<Rightarrow> string \<Rightarrow> string \<Rightarrow> (error + string) \<times> event list" where
  "get_sql_endpoint_for_lakehouse e workspace_id lakehouse_name access_token =
     (let b = fabric e workspace_id access_token;
          response = lakehouses_api b
      in if status_code response \<noteq> 200
         then (Inl (LakehousesFailed (status_code response) (body_text response)),
               [ListLakehouses])
         else
           let lakehouses = json_value response
           in case find_lakehouse lakehouses lakehouse_name of
                Inl err \<Rightarrow> (Inl err, [ListLakehouses])
              | Inr target_lakehouse \<Rightarrow>
                  let response = sqlendpoints_api b
                  in if status_code response \<noteq> 200
                     then
                       let response = items_api b
                       in if status_code response \<noteq> 200
                          then (Inl (ItemsFailed (status_code response) (body_text response)),
                                [ListLakehouses, ListSqlEndpoints, ListItems])
                          else
                            let items = json_value response;
                                sql_endpoints = sql_endpoints_of_items items
                            in (case select_items_path (str_lower e) sql_endpoints lakehouse_name of
                                  None \<Rightarrow>
                                    (Inl (NoMatchingEndpoint lakehouse_name
                                            (map displayName sql_endpoints)),
                                     [ListLakehouses, ListSqlEndpoints, ListItems])
                                | Some target_sql_endpoint \<Rightarrow>
                                    (Inr (item_id target_sql_endpoint),
                                     [ListLakehouses, ListSqlEndpoints, ListItems]))
                     else
                       let sql_endpoints = json_value response
                       in (case select_direct_path (str_lower e) sql_endpoints lakehouse_name of
                             None \<Rightarrow>
                               (Inl (NoMatchingEndpoint lakehouse_name
                                       (map displayName sql_endpoints)),
                                [ListLakehouses, ListSqlEndpoints])
                           | Some target_sql_endpoint \<Rightarrow>
                               (Inr (item_id target_sql_endpoint),
                                [ListLakehouses, ListSqlEndpoints])))"

section \<open>refresh_sql_endpoint_and_wait\<close>

text \<open>
  Lines 146-158: the polling loop. \<open>k\<close> counts the status requests made so far. The
  loop ends because every round that goes on has slept 30 seconds.
\<close>

function poll_loop ::
  "backend \<Rightarrow> string \<Rightarrow> int \<Rightarrow> int \<Rightarrow> int \<Rightarrow> nat \<Rightarrow> world \<Rightarrow> (error + bool) \<times> world" where
  "poll_loop b status_url start_time max_wait_seconds max_wait_minutes k w =
     (if now w - start_time < max_wait_seconds
      then
        let status_response = status_api b status_url k;
            w1 = w\<lparr>now := now w + int (status_latency b k),
                   trace := trace w @ [GetStatus status_url]\<rparr>
        in if status_code status_response = 200 then (Inr True, w1)
           else if status_code status_response = 202
           then poll_loop b status_url start_time max_wait_seconds max_wait_minutes (Suc k)
                  (w1\<lparr>now := now w1 + 30, trace := trace w1 @ [Sleep 30]\<rparr>)
           else (Inl (PollFailed (status_code status_response) (body_text status_response)),
                 w1)
      else (Inl (RefreshTimedOut max_wait_minutes), w))"
  by pat_completeness auto
termination
  by (relation "measure (\<lambda>(b, u, st, ms, mm, k, w). nat (st + ms - now w))") auto

declare poll_loop.simps [simp del]

text \<open>
  Lines 125-164: the refresh POST and what follows it. \<open>evs\<close> is what the script has
  done before. An empty Location header is as good as none (\<^verbatim>\<open>if not status_url\<close>).
\<close>

definition trigger_and_wait ::
  "backend \<Rightarrow> string \<Rightarrow> event list \<Rightarrow> int \<Rightarrow> (error + bool) \<times> event list" where
  "trigger_and_wait b sql_endpoint_id evs max_wait_minutes =
     (let response = refresh_api b sql_endpoint_id;
          evs1 = evs @ [RefreshMetadata sql_endpoint_id]
      in if status_code response = 202
         then
           (case location response of
              None \<Rightarrow> (Inr True, evs1)
            | Some status_url \<Rightarrow>
                if status_url = [] then (Inr True, evs1)
                else
                  let max_wait_seconds = max_wait_minutes * 60;
                      start_time = clock_start b;
                      (r, w) = poll_loop b status_url start_time max_wait_seconds
                                 max_wait_minutes 0 \<lparr>now = start_time, trace = evs1\<rparr>
                  in (r, trace w))
         else if status_code response = 200 then (Inr True, evs1)
         else (Inl (TriggerFailed (status_code response) (body_text response)), evs1))"

text \<open>Lines 110-164: token, resolution (whose exception propagates), then the refresh.\<close>

definition refresh_sql_endpoint_and_wait ::
  "env \<Rightarrow> string \<Rightarrow> string \<Rightarrow> int \<Rightarrow> (error + bool) \<times> event list" where
  "refresh_sql_endpoint_and_wait e lakehouse_name workspace_id max_wait_minutes =
     (let access_token = getToken e ''pbi''
      in case get_sql_endpoint_for_lakehouse e workspace_id lakehouse_name access_token of
           (Inl err, evs) \<Rightarrow> (Inl err, evs)
         | (Inr sql_endpoint_id, evs) \<Rightarrow>
             trigger_and_wait (fabric e workspace_id access_token) sql_endpoint_id evs
               max_wait_minutes)"

section \<open>Vocabulary of the specification\<close>

text \<open>The storage resource was listed (200) and one of that name exists.\<close>

definition lakehouse_resolved :: "backend \<Rightarrow> string \<Rightarrow> bool" where
  "lakehouse_resolved b lakehouse_name \<longleftrightarrow>
     status_code (lakehouses_api b) = 200 \<and>
     (\<exists>lakehouse \<in> set (json_value (lakehouses_api b)). displayName lakehouse = lakehouse_name)"

text \<open>The direct listing of endpoints answered 200.\<close>

definition on_direct_path :: "backend \<Rightarrow> string \<Rightarrow> bool" where
  "on_direct_path b lakehouse_name \<longleftrightarrow>
     lakehouse_resolved b lakehouse_name \<and> status_code (sqlendpoints_api b) = 200"

text \<open>The direct listing failed and the generic items listing answered 200.\<close>

definition on_items_path :: "backend \<Rightarrow> string \<Rightarrow> bool" where
  "on_items_path b lakehouse_name \<longleftrightarrow>
     lakehouse_resolved b lakehouse_name \<and> status_code (sqlendpoints_api b) \<noteq> 200 \<and>
     status_code (items_api b) = 200"

text \<open>
  The first element of a list with a property: it has the property and nothing before
  it has.
\<close>

definition first_at :: "('a \<Rightarrow> bool) \<Rightarrow> 'a list \<Rightarrow> nat \<Rightarrow> bool" where
  "first_at P xs i \<longleftrightarrow> i < length xs \<and> P (xs ! i) \<and> (\<forall>x \<in> set (take i xs). \<not> P x)"

text \<open>
  The lowered resource name occurs in the lowered display name; a marker token occurs in
  the lowered display name.
\<close>

definition contains_name :: "(string \<Rightarrow> string) \<Rightarrow> string \<Rightarrow> item \<Rightarrow> bool" where
  "contains_name lower lakehouse_name endpoint \<longleftrightarrow>
     py_in (lower lakehouse_name) (lower (displayName endpoint))"

definition has_marker :: "(string \<Rightarrow> string) \<Rightarrow> item \<Rightarrow> bool" where
  "has_marker lower endpoint \<longleftrightarrow>
     py_in ''sql'' (lower (displayName endpoint)) \<or>
     py_in ''analytics'' (lower (displayName endpoint))"

section \<open>Example scenarios\<close>

definition endpoint_item :: "string \<Rightarrow> string \<Rightarrow> item" where
  "endpoint_item i n = \<lparr>item_id = i, displayName = n, item_type = Some ''SQLEndpoint''\<rparr>"

definition lakehouse_item :: "string \<Rightarrow> string \<Rightarrow> item" where
  "lakehouse_item i n = \<lparr>item_id = i, displayName = n, item_type = Some ''Lakehouse''\<rparr>"

definition listing :: "int \<Rightarrow> item list \<Rightarrow> response" where
  "listing c xs = \<lparr>status_code = c, body_text = ''{}'', location = None, json_value = xs\<rparr>"

definition reply :: "int \<Rightarrow> string \<Rightarrow> string option \<Rightarrow> response" where
  "reply c t l = \<lparr>status_code = c, body_text = t, location = l, json_value = []\<rparr>"

definition example_backend ::
  "response \<Rightarrow> response \<Rightarrow> response \<Rightarrow> response \<Rightarrow> (nat \<Rightarrow> response) \<Rightarrow> backend" where
  "example_backend lh se it rf st =
     \<lparr>lakehouses_api = lh, sqlendpoints_api = se, items_api = it,
      refresh_api = (\<lambda>_. rf), status_api = (\<lambda>_. st), status_latency = (\<lambda>_. 0),
      clock_start = 1000\<rparr>"

text \<open>
  What \<^verbatim>\<open>str.lower()\<close> returns on an ASCII string: the letters \<open>A\<close> to \<open>Z\<close> become
  \<open>a\<close> to \<open>z\<close>, everything else stays.
\<close>

definition ascii_lower_char :: "char \<Rightarrow> char" where
  "ascii_lower_char c =
     (let n = (of_char c :: nat) in if 65 \<le> n \<and> n \<le> 90 then char_of (n + 32) else c)"

definition ascii_lower :: "string \<Rightarrow> string" where
  "ascii_lower s = map ascii_lower_char s"

text \<open>An environment for scenarios whose names are all ASCII.\<close>

definition example_env :: "backend \<Rightarrow> env" where
  "example_env b =
     \<lparr>getToken = (\<lambda>_. ''token''), fabric = (\<lambda>_ _. b), str_lower = ascii_lower\<rparr>"

text \<open>A workspace whose lakehouses are named \<open>Foo\<close> and \<open>bar\<close>; asking for \<open>foo\<close>.\<close>

definition case_backend :: backend where
  "case_backend =
     example_backend (listing 200 [lakehouse_item ''l1'' ''Foo'', lakehouse_item ''l2'' ''bar''])
       (listing 200 []) (listing 200 []) (reply 200 [] None) (\<lambda>_. reply 200 [] None)"

text \<open>Two lakehouses of the same name \<open>foo\<close>, after one named \<open>bar\<close>.\<close>

definition twin_lakehouses :: "item list" where
  "twin_lakehouses =
     [lakehouse_item ''l0'' ''bar'', lakehouse_item ''l1'' ''foo'', lakehouse_item ''l2'' ''foo'']"

text \<open>
  The endpoints \<open>foo - SQL analytics endpoint\<close> and \<open>foo\<close> of the specification, listed
  by the items API (with the lakehouse itself) after the direct listing answered 404.
\<close>

definition foo_endpoints :: "item list" where
  "foo_endpoints =
     [endpoint_item ''e1'' ''foo - SQL analytics endpoint'', endpoint_item ''e2'' ''foo'']"

definition foo_items_backend :: backend where
  "foo_items_backend =
     example_backend (listing 200 [lakehouse_item ''l1'' ''foo''])
       (reply 404 ''not found'' None)
       (listing 200 (lakehouse_item ''l1'' ''foo'' # foo_endpoints))
       (reply 200 [] None) (\<lambda>_. reply 200 [] None)"

text \<open>The same two endpoints in the other order.\<close>

definition oof_items_backend :: backend where
  "oof_items_backend =
     example_backend (listing 200 [lakehouse_item ''l1'' ''foo''])
       (reply 404 ''not found'' None)
       (listing 200 (lakehouse_item ''l1'' ''foo'' # rev foo_endpoints))
       (reply 200 [] None) (\<lambda>_. reply 200 [] None)"

text \<open>
  The direct listing is unavailable; no endpoint carries a marker token, two are named
  \<open>foo\<close> up to case.
\<close>

definition plain_items_backend :: backend where
  "plain_items_backend =
     example_backend (listing 200 [lakehouse_item ''l1'' ''foo''])
       (reply 503 ''unavailable'' None)
       (listing 200 [endpoint_item ''e1'' ''foobar'', lakehouse_item ''l1'' ''foo'',
                     endpoint_item ''e2'' ''FOO'', endpoint_item ''e3'' ''Foo''])
       (reply 200 [] None) (\<lambda>_. reply 200 [] None)"

text \<open>
  The wording of the specification (4.1c) for the direct path: containment of the name
  without a marker token first, equality only when that finds nothing (both on the
  lowered names).
\<close>

definition relaxed_then_exact ::
  "(string \<Rightarrow> string) \<Rightarrow> item list \<Rightarrow> string \<Rightarrow> item option" where
  "relaxed_then_exact lower sql_endpoints lakehouse_name =
     (case find (contains_name lower lakehouse_name) sql_endpoints of
        Some endpoint \<Rightarrow> Some endpoint
      | None \<Rightarrow> find (exact_match lower lakehouse_name) sql_endpoints)"

text \<open>
  The lakehouses \<open>foo\<close> and \<open>baz\<close>; the direct listing answers 200 with three
  endpoints: \<open>bar\<close>, \<open>My Foo data\<close> (no marker token) and \<open>foo\<close>.
\<close>

definition direct_endpoints :: "item list" where
  "direct_endpoints =
     [endpoint_item ''e1'' ''bar'', endpoint_item ''e2'' ''My Foo data'',
      endpoint_item ''e3'' ''foo'']"

definition direct_backend :: backend where
  "direct_backend =
     example_backend (listing 200 [lakehouse_item ''l1'' ''foo'', lakehouse_item ''l2'' ''baz''])
       (listing 200 direct_endpoints) (reply 500 ''unused'' None)
       (reply 200 [] None) (\<lambda>_. reply 200 [] None)"

text \<open>
  The same three endpoints as \<open>direct_endpoints\<close>, now reported by the items
  listing (together with the two lakehouses) because the direct listing answers 404.
\<close>

definition same_items_backend :: backend where
  "same_items_backend =
     example_backend (listing 200 [lakehouse_item ''l1'' ''foo'', lakehouse_item ''l2'' ''baz''])
       (reply 404 ''not found'' None)
       (listing 200 (lakehouse_item ''l1'' ''foo'' # lakehouse_item ''l2'' ''baz'' #
                     direct_endpoints))
       (reply 200 [] None) (\<lambda>_. reply 200 [] None)"

text \<open>Endpoints that all carry a marker token when they contain the name \<open>foo\<close>.\<close>

definition marked_endpoints :: "item list" where
  "marked_endpoints =
     [endpoint_item ''e1'' ''bar'', endpoint_item ''e2'' ''foo - SQL analytics endpoint'',
      endpoint_item ''e3'' ''Foo SQL'']"

definition marked_direct_backend :: backend where
  "marked_direct_backend =
     example_backend (listing 200 [lakehouse_item ''l1'' ''foo''])
       (listing 200 marked_endpoints) (reply 500 ''unused'' None)
       (reply 200 [] None) (\<lambda>_. reply 200 [] None)"

definition marked_items_backend :: backend where
  "marked_items_backend =
     example_backend (listing 200 [lakehouse_item ''l1'' ''foo''])
       (reply 404 ''not found'' None)
       (listing 200 (marked_endpoints @ [lakehouse_item ''l1'' ''foo'']))
       (reply 200 [] None) (\<lambda>_. reply 200 [] None)"

text \<open>A plausible match of the items path: either of its two rules holds.\<close>

definition plausible_item :: "(string \<Rightarrow> string) \<Rightarrow> string \<Rightarrow> item \<Rightarrow> bool" where
  "plausible_item lower lakehouse_name endpoint \<longleftrightarrow>
     marker_match lower lakehouse_name endpoint \<or> exact_match lower lakehouse_name endpoint"

text \<open>
  The refresh POST was accepted as an asynchronous job: 202 with a usable Location.
\<close>

definition refresh_accepted :: "backend \<Rightarrow> string \<Rightarrow> string \<Rightarrow> bool" where
  "refresh_accepted b sql_endpoint_id status_url \<longleftrightarrow>
     status_code (refresh_api b sql_endpoint_id) = 202 \<and>
     location (refresh_api b sql_endpoint_id) = Some status_url \<and> status_url \<noteq> []"

text \<open>
  Seconds on the clock, counted from the start of polling, after \<open>n\<close> status requests
  that were each answered 202 and followed by the sleep.
\<close>

fun pending_elapsed :: "backend \<Rightarrow> nat \<Rightarrow> int" where
  "pending_elapsed b 0 = 0"
| "pending_elapsed b (Suc n) = pending_elapsed b n + int (status_latency b n) + 30"

text \<open>What \<open>n\<close> such rounds add to the trace.\<close>

fun pending_trace :: "string \<Rightarrow> nat \<Rightarrow> event list" where
  "pending_trace status_url 0 = []"
| "pending_trace status_url (Suc n) = pending_trace status_url n @ [GetStatus status_url, Sleep 30]"

text \<open>The number of status requests in a trace.\<close>

fun is_poll :: "event \<Rightarrow> bool" where
  "is_poll (GetStatus status_url) = True"
| "is_poll ev = False"

definition polls_made :: "event list \<Rightarrow> nat" where
  "polls_made evs = length (filter is_poll evs)"

text \<open>The clock and the trace after \<open>n\<close> such rounds, polling having begun with \<open>evs\<close>.\<close>

definition after_pending :: "backend \<Rightarrow> string \<Rightarrow> int \<Rightarrow> event list \<Rightarrow> nat \<Rightarrow> world" where
  "after_pending b status_url start_time evs n =
     \<lparr>now = start_time + pending_elapsed b n, trace = evs @ pending_trace status_url n\<rparr>"

text \<open>
  A workspace with the lakehouse \<open>foo\<close> and its endpoint \<open>foo\<close> (id \<open>e1\<close>), found on the
  direct path; what varies is the answer to the refresh POST and to the status GETs.
\<close>

definition job_backend :: "response \<Rightarrow> (nat \<Rightarrow> response) \<Rightarrow> backend" where
  "job_backend rf st =
     example_backend (listing 200 [lakehouse_item ''l1'' ''foo''])
       (listing 200 [endpoint_item ''e1'' ''foo'']) (reply 500 ''unused'' None) rf st"

definition accepted :: response where
  "accepted = reply 202 ''accepted'' (Some ''https://status/op1'')"

definition sync_backend :: backend where
  "sync_backend = job_backend (reply 200 ''done'' None) (\<lambda>k. reply 500 ''unused'' None)"

definition blind_backend :: backend where
  "blind_backend = job_backend (reply 202 ''accepted'' None) (\<lambda>k. reply 500 ''unused'' None)"

definition empty_location_backend :: backend where
  "empty_location_backend =
     job_backend (reply 202 ''accepted'' (Some [])) (\<lambda>k. reply 500 ''unused'' None)"

definition one_pending_backend :: backend where
  "one_pending_backend =
     job_backend accepted
       (\<lambda>k. if k = 0 then reply 202 ''running'' None else reply 200 ''done'' None)"

definition never_done_backend :: backend where
  "never_done_backend = job_backend accepted (\<lambda>k. reply 202 ''running'' None)"

definition denied_backend :: backend where
  "denied_backend = job_backend (reply 403 ''forbidden'' None) (\<lambda>k. reply 500 ''unused'' None)"

definition broken_poll_backend :: backend where
  "broken_poll_backend =
     job_backend accepted
       (\<lambda>k. if k < 2 then reply 202 ''running'' None else reply 500 ''boom'' None)"

text \<open>
  The listing of \<open>twin_lakehouses\<close>: two lakehouses are named \<open>foo\<close>; the
  direct listing reports the endpoint \<open>foo\<close>.
\<close>

definition twin_backend :: backend where
  "twin_backend =
     example_backend (listing 200 twin_lakehouses) (listing 200 [endpoint_item ''e1'' ''foo''])
       (reply 500 ''unused'' None) (reply 200 [] None) (\<lambda>_. reply 200 [] None)"

text \<open>
  A scenario with Greek names, as UTF-8: the lakehouse is named with capital alpha and
  capital sigma, its endpoint with capital alpha, sigma, alpha followed by
  \<open> - SQL analytics endpoint\<close>.
\<close>

definition alpha_sigma :: string where
  "alpha_sigma = [CHR 0xCE, CHR 0x91, CHR 0xCE, CHR 0xA3]"

definition alpha_sigma_alpha_endpoint :: string where
  "alpha_sigma_alpha_endpoint =
     [CHR 0xCE, CHR 0x91, CHR 0xCE, CHR 0xA3, CHR 0xCE, CHR 0x91] @
     '' - SQL analytics endpoint''"

text \<open>
  What \<^verbatim>\<open>str.lower()\<close> returns on the strings of this scenario. A capital sigma at the
  end of a word lowers to the final sigma (bytes CF 82), one inside a word to the
  ordinary small sigma (bytes CF 83); the ASCII part lowers as usual.
\<close>

definition greek_lower :: "string \<Rightarrow> string" where
  "greek_lower s =
     (if s = alpha_sigma then [CHR 0xCE, CHR 0xB1, CHR 0xCF, CHR 0x82]
      else if s = alpha_sigma_alpha_endpoint
      then [CHR 0xCE, CHR 0xB1, CHR 0xCF, CHR 0x83, CHR 0xCE, CHR 0xB1] @
           '' - sql analytics endpoint''
      else ascii_lower s)"

definition greek_env :: "backend \<Rightarrow> env" where
  "greek_env b =
     \<lparr>getToken = (\<lambda>_. ''token''), fabric = (\<lambda>_ _. b), str_lower = greek_lower\<rparr>"

definition greek_items_backend :: backend where
  "greek_items_backend =
     example_backend (listing 200 [lakehouse_item ''l1'' alpha_sigma])
       (reply 404 ''not found'' None)
       (listing 200 [lakehouse_item ''l1'' alpha_sigma,
                     endpoint_item ''e1'' alpha_sigma_alpha_endpoint])
       (reply 200 [] None) (\<lambda>_. reply 200 [] None)"

definition greek_direct_backend :: backend where
  "greek_direct_backend =
     example_backend (listing 200 [lakehouse_item ''l1'' alpha_sigma])
       (listing 200 [endpoint_item ''e1'' alpha_sigma_alpha_endpoint])
       (reply 500 ''unused'' None) (reply 200 [] None) (\<lambda>_. reply 200 [] None)"

text \<open>
  The two listing APIs describing the same workspace content \<open>resources\<close>: the items
  API reports all of it, the direct API the resources of type \<open>SQLEndpoint\<close>, in the same
  order.
\<close>

definition lists_items_of :: "item list \<Rightarrow> backend \<Rightarrow> bool" where
  "lists_items_of resources b \<longleftrightarrow>
     status_code (items_api b) = 200 \<and> json_value (items_api b) = resources"

definition lists_endpoints_of :: "item list \<Rightarrow> backend \<Rightarrow> bool" where
  "lists_endpoints_of resources b \<longleftrightarrow>
     status_code (sqlendpoints_api b) = 200 \<and>
     json_value (sqlendpoints_api b) =
       filter (\<lambda>resource. item_type resource = Some ''SQLEndpoint'') resources"

text \<open>
  When the two paths select the same endpoint from the same candidates: no candidate
  contains the name; or the first candidate containing it carries a marker token; or no
  candidate satisfies the marker rule and the first candidate containing the name equals
  it (all after lowering).
\<close>

definition paths_agree_on :: "(string \<Rightarrow> string) \<Rightarrow> item list \<Rightarrow> string \<Rightarrow> bool" where
  "paths_agree_on lower candidates lakehouse_name \<longleftrightarrow>
     (case find (contains_name lower lakehouse_name) candidates of
        None \<Rightarrow> True
      | Some endpoint \<Rightarrow>
          has_marker lower endpoint \<or>
          \<not> (\<exists>other \<in> set candidates. marker_match lower lakehouse_name other) \<and>
          exact_match lower lakehouse_name endpoint)"

text \<open>
  One environment serving two workspaces: \<open>ws1\<close>, where the direct listing works, and
  any other id, where it does not.
\<close>

definition pair_env :: "backend \<Rightarrow> backend \<Rightarrow> env" where
  "pair_env b1 b2 =
     \<lparr>getToken = (\<lambda>_. ''token''), fabric = (\<lambda>ws _. if ws = ''ws1'' then b1 else b2),
      str_lower = ascii_lower\<rparr>"

section \<open>Helper facts\<close>

lemma starts_with_iff: "starts_with sub s \<longleftrightarrow> (\<exists>post. s = sub @ post)"
  by (induction sub s rule: starts_with.induct) auto

lemma py_in_iff: "py_in sub s \<longleftrightarrow> (\<exists>pre post. s = pre @ sub @ post)"
proof (induction s)
  case Nil
  then show ?case by auto
next
  case (Cons c cs)
  show ?case
  proof
    assume "py_in sub (c # cs)"
    then consider "starts_with sub (c # cs)" | "py_in sub cs" by auto
    then show "\<exists>pre post. c # cs = pre @ sub @ post"
    proof cases
      case 1
      then obtain post where "c # cs = sub @ post" by (auto simp: starts_with_iff)
      then have "c # cs = [] @ sub @ post" by simp
      then show ?thesis by blast
    next
      case 2
      with Cons obtain pre post where "cs = pre @ sub @ post" by blast
      then have "c # cs = (c # pre) @ sub @ post" by simp
      then show ?thesis by blast
    qed
  next
    assume "\<exists>pre post. c # cs = pre @ sub @ post"
    then obtain pre post where eq: "c # cs = pre @ sub @ post" by blast
    show "py_in sub (c # cs)"
    proof (cases pre)
      case Nil
      with eq have "starts_with sub (c # cs)" by (auto simp: starts_with_iff)
      then show ?thesis by simp
    next
      case (Cons d pre')
      with eq have "cs = pre' @ sub @ post" by simp
      with Cons.IH have "py_in sub cs" by blast
      then show ?thesis by simp
    qed
  qed
qed

lemma nth_in_take: "j < i \<Longrightarrow> i \<le> length xs \<Longrightarrow> xs ! j \<in> set (take i xs)"
proof -
  assume a: "j < i" "i \<le> length xs"
  then have "j < length (take i xs)" by simp
  then have "take i xs ! j \<in> set (take i xs)" by (rule nth_mem)
  with a show ?thesis by simp
qed

lemma first_at_find: "first_at P xs i \<Longrightarrow> find P xs = Some (xs ! i)"
proof -
  assume a: "first_at P xs i"
  then have i: "i < length xs" "P (xs ! i)" and n: "\<forall>x \<in> set (take i xs). \<not> P x"
    by (simp_all add: first_at_def)
  have "\<forall>j<i. \<not> P (xs ! j)"
  proof (intro allI impI)
    fix j assume "j < i"
    with i have "xs ! j \<in> set (take i xs)" by (simp add: nth_in_take)
    with n show "\<not> P (xs ! j)" by blast
  qed
  with i show ?thesis unfolding find_Some_iff by blast
qed

lemma find_first_at: "find P xs = Some x \<Longrightarrow> \<exists>i. first_at P xs i \<and> x = xs ! i"
proof -
  assume "find P xs = Some x"
  then obtain i where i: "i < length xs" "P (xs ! i)" "x = xs ! i" and n: "\<forall>j<i. \<not> P (xs ! j)"
    unfolding find_Some_iff by blast
  have "\<forall>y \<in> set (take i xs). \<not> P y"
  proof
    fix y assume "y \<in> set (take i xs)"
    then obtain j where j: "j < length (take i xs)" "y = take i xs ! j"
      unfolding in_set_conv_nth by blast
    then have "j < i" "y = xs ! j" by simp_all
    with n show "\<not> P y" by blast
  qed
  with i have "first_at P xs i" by (simp add: first_at_def)
  with i show ?thesis by blast
qed

lemma find_lakehouse_none:
  "\<forall>lh \<in> set lakehouses. displayName lh \<noteq> name \<Longrightarrow>
   find_lakehouse lakehouses name = Inl (NotFound name (map displayName lakehouses))"
proof -
  assume "\<forall>lh \<in> set lakehouses. displayName lh \<noteq> name"
  then have "find (\<lambda>lh. displayName lh = name) lakehouses = None"
    unfolding find_None_iff by blast
  then show ?thesis by (simp add: find_lakehouse_def)
qed

lemma resolve_not_found:
  assumes "status_code (lakehouses_api (fabric e ws tok)) = 200"
    and "find_lakehouse (json_value (lakehouses_api (fabric e ws tok))) name = Inl err"
  shows "get_sql_endpoint_for_lakehouse e ws name tok = (Inl err, [ListLakehouses])"
  using assms unfolding get_sql_endpoint_for_lakehouse_def Let_def by simp

lemma case_backend_lakehouses:
  "json_value (lakehouses_api case_backend) = [lakehouse_item ''l1'' ''Foo'', lakehouse_item ''l2'' ''bar'']"
  by (simp add: case_backend_def example_backend_def listing_def)

lemma fabric_example_env: "fabric (example_env b) ws tok = b"
  by (simp add: example_env_def)

lemma str_lower_example_env: "str_lower (example_env b) = ascii_lower"
  by (simp add: example_env_def)

lemma find_lakehouse_some:
  assumes "lakehouse_resolved b name"
  shows "\<exists>t. find_lakehouse (json_value (lakehouses_api b)) name = Inr t"
proof -
  from assms have "\<exists>lh \<in> set (json_value (lakehouses_api b)). displayName lh = name"
    by (simp add: lakehouse_resolved_def)
  then have "find (\<lambda>lh. displayName lh = name) (json_value (lakehouses_api b)) \<noteq> None"
    unfolding find_None_iff by blast
  then obtain t where "find (\<lambda>lh. displayName lh = name) (json_value (lakehouses_api b)) = Some t"
    by blast
  then show ?thesis by (simp add: find_lakehouse_def)
qed

lemma resolve_items_path:
  assumes "on_items_path (fabric e ws tok) name"
  shows "get_sql_endpoint_for_lakehouse e ws name tok =
    (case select_items_path (str_lower e) (sql_endpoints_of_items (json_value (items_api (fabric e ws tok)))) name of
       None \<Rightarrow> (Inl (NoMatchingEndpoint name
                  (map displayName (sql_endpoints_of_items (json_value (items_api (fabric e ws tok)))))),
                [ListLakehouses, ListSqlEndpoints, ListItems])
     | Some ep \<Rightarrow> (Inr (item_id ep), [ListLakehouses, ListSqlEndpoints, ListItems]))"
proof -
  from assms have r: "lakehouse_resolved (fabric e ws tok) name"
    and s: "status_code (sqlendpoints_api (fabric e ws tok)) \<noteq> 200"
    and i: "status_code (items_api (fabric e ws tok)) = 200"
    by (simp_all add: on_items_path_def)
  from r have l: "status_code (lakehouses_api (fabric e ws tok)) = 200"
    by (simp add: lakehouse_resolved_def)
  from r obtain t where t: "find_lakehouse (json_value (lakehouses_api (fabric e ws tok))) name = Inr t"
    using find_lakehouse_some by blast
  show ?thesis
    unfolding get_sql_endpoint_for_lakehouse_def Let_def
    by (simp add: l t s i)
qed

lemma resolve_direct_path:
  assumes "on_direct_path (fabric e ws tok) name"
  shows "get_sql_endpoint_for_lakehouse e ws name tok =
    (case select_direct_path (str_lower e) (json_value (sqlendpoints_api (fabric e ws tok))) name of
       None \<Rightarrow> (Inl (NoMatchingEndpoint name
                  (map displayName (json_value (sqlendpoints_api (fabric e ws tok))))),
                [ListLakehouses, ListSqlEndpoints])
     | Some ep \<Rightarrow> (Inr (item_id ep), [ListLakehouses, ListSqlEndpoints]))"
proof -
  from assms have r: "lakehouse_resolved (fabric e ws tok) name"
    and s: "status_code (sqlendpoints_api (fabric e ws tok)) = 200"
    by (simp_all add: on_direct_path_def)
  from r have l: "status_code (lakehouses_api (fabric e ws tok)) = 200"
    by (simp add: lakehouse_resolved_def)
  from r obtain t where t: "find_lakehouse (json_value (lakehouses_api (fabric e ws tok))) name = Inr t"
    using find_lakehouse_some by blast
  show ?thesis
    unfolding get_sql_endpoint_for_lakehouse_def Let_def
    by (simp add: l t s)
qed

lemma marker_match_iff: "marker_match lw name ep \<longleftrightarrow> contains_name lw name ep \<and> has_marker lw ep"
  by (simp add: marker_match_def contains_name_def has_marker_def Let_def)

lemma contains_name_iff:
  "contains_name lw name ep \<longleftrightarrow> (\<exists>pre post. lw (displayName ep) = pre @ lw name @ post)"
  by (simp add: contains_name_def py_in_iff)

lemma select_items_marker:
  "first_at (marker_match lw name) eps i \<Longrightarrow> select_items_path lw eps name = Some (eps ! i)"
  by (simp add: select_items_path_def first_at_find)

lemma select_items_exact:
  assumes "\<forall>ep \<in> set eps. \<not> marker_match lw name ep" and "first_at (exact_match lw name) eps i"
  shows "select_items_path lw eps name = Some (eps ! i)"
proof -
  from assms(1) have "find (marker_match lw name) eps = None" unfolding find_None_iff by blast
  with assms(2) show ?thesis by (simp add: select_items_path_def first_at_find)
qed

lemma select_items_none:
  assumes "\<forall>ep \<in> set eps. \<not> marker_match lw name ep \<and> \<not> exact_match lw name ep"
  shows "select_items_path lw eps name = None"
proof -
  from assms have "find (marker_match lw name) eps = None" "find (exact_match lw name) eps = None"
    unfolding find_None_iff by blast+
  then show ?thesis by (simp add: select_items_path_def)
qed

lemma py_in_refl: "py_in s s"
proof -
  have "s = [] @ s @ []" by simp
  then show ?thesis unfolding py_in_iff by blast
qed

lemma exact_contains: "exact_match lw name ep \<Longrightarrow> contains_name lw name ep"
  by (simp add: exact_match_def contains_name_def py_in_refl)

lemma relaxed_match_iff: "relaxed_match lw name ep \<longleftrightarrow> contains_name lw name ep"
proof
  assume "relaxed_match lw name ep"
  then have "contains_name lw name ep \<or> exact_match lw name ep"
    by (simp add: relaxed_match_def contains_name_def exact_match_def Let_def)
  then show "contains_name lw name ep" using exact_contains by blast
next
  assume "contains_name lw name ep"
  then show "relaxed_match lw name ep"
    by (simp add: relaxed_match_def contains_name_def Let_def)
qed

lemma relaxed_match_eq: "relaxed_match lw name = contains_name lw name"
  by (rule ext) (rule relaxed_match_iff)

lemma select_direct_spec: "select_direct_path lw eps name = relaxed_then_exact lw eps name"
proof (cases "find (contains_name lw name) eps")
  case None
  then have "\<forall>ep \<in> set eps. \<not> contains_name lw name ep" unfolding find_None_iff by blast
  then have "\<forall>ep \<in> set eps. \<not> exact_match lw name ep" using exact_contains by blast
  then have "find (exact_match lw name) eps = None" unfolding find_None_iff by blast
  with None show ?thesis
    by (simp add: select_direct_path_def relaxed_then_exact_def relaxed_match_eq)
next
  case (Some ep)
  then show ?thesis
    by (simp add: select_direct_path_def relaxed_then_exact_def relaxed_match_eq)
qed

lemma resolve_fallback_trace:
  assumes "lakehouse_resolved (fabric e ws tok) name"
    and s: "status_code (sqlendpoints_api (fabric e ws tok)) \<noteq> 200"
  shows "snd (get_sql_endpoint_for_lakehouse e ws name tok) =
         [ListLakehouses, ListSqlEndpoints, ListItems]"
proof -
  from assms(1) have l: "status_code (lakehouses_api (fabric e ws tok)) = 200"
    by (simp add: lakehouse_resolved_def)
  from assms(1) obtain t where
    t: "find_lakehouse (json_value (lakehouses_api (fabric e ws tok))) name = Inr t"
    using find_lakehouse_some by blast
  show ?thesis
    unfolding get_sql_endpoint_for_lakehouse_def Let_def
    by (simp add: l t s split: option.split)
qed

lemma resolve_items_fst:
  assumes "on_items_path (fabric e ws tok) name"
  shows "fst (get_sql_endpoint_for_lakehouse e ws name tok) =
    (case select_items_path (str_lower e) (sql_endpoints_of_items (json_value (items_api (fabric e ws tok)))) name of
       None \<Rightarrow> Inl (NoMatchingEndpoint name
                  (map displayName (sql_endpoints_of_items (json_value (items_api (fabric e ws tok))))))
     | Some ep \<Rightarrow> Inr (item_id ep))"
  unfolding resolve_items_path [OF assms] by (simp split: option.split)

lemma resolve_direct_fst:
  assumes "on_direct_path (fabric e ws tok) name"
  shows "fst (get_sql_endpoint_for_lakehouse e ws name tok) =
    (case select_direct_path (str_lower e) (json_value (sqlendpoints_api (fabric e ws tok))) name of
       None \<Rightarrow> Inl (NoMatchingEndpoint name
                  (map displayName (json_value (sqlendpoints_api (fabric e ws tok)))))
     | Some ep \<Rightarrow> Inr (item_id ep))"
  unfolding resolve_direct_path [OF assms] by (simp split: option.split)

lemma select_items_mem:
  assumes "select_items_path lw eps name = Some ep"
  shows "ep \<in> set eps"
proof (cases "find (marker_match lw name) eps")
  case None
  with assms have "find (exact_match lw name) eps = Some ep" by (simp add: select_items_path_def)
  then show ?thesis unfolding find_Some_iff by auto
next
  case (Some a)
  with assms have "find (marker_match lw name) eps = Some ep" by (simp add: select_items_path_def)
  then show ?thesis unfolding find_Some_iff by auto
qed

lemma find_some_first_at:
  assumes "\<exists>x \<in> set xs. P x"
  shows "\<exists>k. first_at P xs k \<and> find P xs = Some (xs ! k)"
proof -
  from assms have "find P xs \<noteq> None" by (simp add: find_None_iff Bex_def)
  then obtain x where x: "find P xs = Some x" by (cases "find P xs") simp_all
  from find_first_at [OF x] obtain k where k: "first_at P xs k" "x = xs ! k" by (elim exE conjE)
  from x k have "first_at P xs k \<and> find P xs = Some (xs ! k)" by simp
  then show ?thesis by (rule exI)
qed

lemma select_items_cases:
  assumes "\<exists>ep \<in> set eps. marker_match lw name ep \<or> exact_match lw name ep"
  shows "\<exists>k. (first_at (marker_match lw name) eps k \<or>
              (\<forall>ep \<in> set eps. \<not> marker_match lw name ep) \<and> first_at (exact_match lw name) eps k) \<and>
             select_items_path lw eps name = Some (eps ! k)"
proof (cases "\<exists>ep \<in> set eps. marker_match lw name ep")
  case True
  from find_some_first_at [OF True] obtain k where k: "first_at (marker_match lw name) eps k"
    by (elim exE conjE)
  from k have "select_items_path lw eps name = Some (eps ! k)" by (rule select_items_marker)
  with k show ?thesis by blast
next
  case False
  with assms have ex: "\<exists>ep \<in> set eps. exact_match lw name ep" by blast
  from find_some_first_at [OF ex] obtain k where k: "first_at (exact_match lw name) eps k"
    by (elim exE conjE)
  from False have n: "\<forall>ep \<in> set eps. \<not> marker_match lw name ep" by blast
  from n k have "select_items_path lw eps name = Some (eps ! k)" by (rule select_items_exact)
  with n k show ?thesis by blast
qed

lemma poll_step_done:
  assumes "now w - st < ms" and "status_code (status_api b u k) = 200"
  shows "poll_loop b u st ms mm k w =
         (Inr True, w\<lparr>now := now w + int (status_latency b k), trace := trace w @ [GetStatus u]\<rparr>)"
  using assms by (subst poll_loop.simps) (simp add: Let_def)

lemma poll_step_pending:
  assumes "now w - st < ms" and "status_code (status_api b u k) = 202"
  shows "poll_loop b u st ms mm k w =
         poll_loop b u st ms mm (Suc k)
           (w\<lparr>now := now w + int (status_latency b k) + 30,
              trace := trace w @ [GetStatus u, Sleep 30]\<rparr>)"
  using assms by (subst poll_loop.simps) (simp add: Let_def)

lemma poll_step_failed:
  assumes "now w - st < ms" and "status_code (status_api b u k) \<noteq> 200"
    and "status_code (status_api b u k) \<noteq> 202"
  shows "poll_loop b u st ms mm k w =
         (Inl (PollFailed (status_code (status_api b u k)) (body_text (status_api b u k))),
          w\<lparr>now := now w + int (status_latency b k), trace := trace w @ [GetStatus u]\<rparr>)"
  using assms by (subst poll_loop.simps) (simp add: Let_def)

lemma poll_deadline:
  assumes "\<not> now w - st < ms"
  shows "poll_loop b u st ms mm k w = (Inl (RefreshTimedOut mm), w)"
  using assms by (subst poll_loop.simps) simp

lemma poll_pending_rounds:
  assumes "\<forall>i<n. status_code (status_api b u i) = 202"
    and "\<forall>i<n. pending_elapsed b i < ms"
  shows "poll_loop b u st ms mm 0 \<lparr>now = st, trace = evs\<rparr> =
         poll_loop b u st ms mm n (after_pending b u st evs n)"
  using assms
proof (induction n)
  case 0
  show ?case by (simp add: after_pending_def)
next
  case (Suc n)
  then have ih: "poll_loop b u st ms mm 0 \<lparr>now = st, trace = evs\<rparr> =
         poll_loop b u st ms mm n (after_pending b u st evs n)"
    by simp
  from Suc.prems have s: "status_code (status_api b u n) = 202"
    and t: "pending_elapsed b n < ms" by simp_all
  from t have "now (after_pending b u st evs n) - st < ms" by (simp add: after_pending_def)
  from poll_step_pending [OF this s]
  have step: "poll_loop b u st ms mm n (after_pending b u st evs n) =
        poll_loop b u st ms mm (Suc n)
          ((after_pending b u st evs n)
             \<lparr>now := now (after_pending b u st evs n) + int (status_latency b n) + 30,
              trace := trace (after_pending b u st evs n) @ [GetStatus u, Sleep 30]\<rparr>)" .
  have eq: "(after_pending b u st evs n)
             \<lparr>now := now (after_pending b u st evs n) + int (status_latency b n) + 30,
              trace := trace (after_pending b u st evs n) @ [GetStatus u, Sleep 30]\<rparr> =
            after_pending b u st evs (Suc n)"
    by (simp add: after_pending_def)
  from ih step show ?case by (simp only: eq)
qed

lemma pending_elapsed_mono: "i \<le> n \<Longrightarrow> pending_elapsed b i \<le> pending_elapsed b n"
proof (induction n)
  case 0
  then show ?case by simp
next
  case (Suc n)
  show ?case
  proof (cases "i = Suc n")
    case True
    then show ?thesis by simp
  next
    case False
    with Suc.prems have "i \<le> n" by simp
    with Suc.IH have "pending_elapsed b i \<le> pending_elapsed b n" by simp
    then show ?thesis by simp
  qed
qed

lemma polls_made_pending: "polls_made (evs @ pending_trace u n) = polls_made evs + n"
  by (induction n) (simp_all add: polls_made_def)

lemma resolver_trace_no_poll:
  "polls_made (snd (get_sql_endpoint_for_lakehouse e ws name tok)) = 0"
  unfolding get_sql_endpoint_for_lakehouse_def Let_def polls_made_def
  by (simp split: sum.split option.split)

lemma refresh_after_resolution:
  assumes "get_sql_endpoint_for_lakehouse e ws name (getToken e ''pbi'') = (Inr eid, evs)"
  shows "refresh_sql_endpoint_and_wait e name ws mm =
         trigger_and_wait (fabric e ws (getToken e ''pbi'')) eid evs mm"
  using assms by (simp add: refresh_sql_endpoint_and_wait_def Let_def)

lemma trigger_polls:
  assumes "refresh_accepted b eid u"
  shows "trigger_and_wait b eid evs mm =
         (fst (poll_loop b u (clock_start b) (mm * 60) mm 0
                 \<lparr>now = clock_start b, trace = evs @ [RefreshMetadata eid]\<rparr>),
          trace (snd (poll_loop b u (clock_start b) (mm * 60) mm 0
                 \<lparr>now = clock_start b, trace = evs @ [RefreshMetadata eid]\<rparr>)))"
  using assms
  by (simp add: trigger_and_wait_def refresh_accepted_def Let_def split_beta)

lemma run_reaches_round:
  assumes acc: "refresh_accepted b eid u"
    and pend: "\<forall>i<n. status_code (status_api b u i) = 202"
    and time: "\<forall>i<n. pending_elapsed b i < mm * 60"
  shows "trigger_and_wait b eid evs mm =
         (fst (poll_loop b u (clock_start b) (mm * 60) mm n
                 (after_pending b u (clock_start b) (evs @ [RefreshMetadata eid]) n)),
          trace (snd (poll_loop b u (clock_start b) (mm * 60) mm n
                 (after_pending b u (clock_start b) (evs @ [RefreshMetadata eid]) n))))"
  unfolding trigger_polls [OF acc] poll_pending_rounds [OF pend time] ..

lemma run_succeeds_after:
  assumes acc: "refresh_accepted b eid u"
    and pend: "\<forall>i<n. status_code (status_api b u i) = 202"
    and time: "\<forall>i<n. pending_elapsed b i < mm * 60"
    and last: "pending_elapsed b n < mm * 60"
    and fin: "status_code (status_api b u n) = 200"
  shows "trigger_and_wait b eid evs mm =
         (Inr True, evs @ [RefreshMetadata eid] @ pending_trace u n @ [GetStatus u])"
proof -
  from last have "now (after_pending b u (clock_start b) (evs @ [RefreshMetadata eid]) n) -
      clock_start b < mm * 60"
    by (simp add: after_pending_def)
  from poll_step_done [OF this fin] show ?thesis
    unfolding run_reaches_round [OF acc pend time] by (simp add: after_pending_def)
qed

lemma run_fails_after:
  assumes acc: "refresh_accepted b eid u"
    and pend: "\<forall>i<n. status_code (status_api b u i) = 202"
    and time: "\<forall>i<n. pending_elapsed b i < mm * 60"
    and last: "pending_elapsed b n < mm * 60"
    and bad: "status_code (status_api b u n) \<noteq> 200" "status_code (status_api b u n) \<noteq> 202"
  shows "trigger_and_wait b eid evs mm =
         (Inl (PollFailed (status_code (status_api b u n)) (body_text (status_api b u n))),
          evs @ [RefreshMetadata eid] @ pending_trace u n @ [GetStatus u])"
proof -
  from last have "now (after_pending b u (clock_start b) (evs @ [RefreshMetadata eid]) n) -
      clock_start b < mm * 60"
    by (simp add: after_pending_def)
  from poll_step_failed [OF this bad] show ?thesis
    unfolding run_reaches_round [OF acc pend time] by (simp add: after_pending_def)
qed

lemma run_times_out_after:
  assumes acc: "refresh_accepted b eid u"
    and pend: "\<forall>i<n. status_code (status_api b u i) = 202"
    and time: "\<forall>i<n. pending_elapsed b i < mm * 60"
    and late: "mm * 60 \<le> pending_elapsed b n"
  shows "trigger_and_wait b eid evs mm =
         (Inl (RefreshTimedOut mm), evs @ [RefreshMetadata eid] @ pending_trace u n)"
proof -
  from late have "\<not> now (after_pending b u (clock_start b) (evs @ [RefreshMetadata eid]) n) -
      clock_start b < mm * 60"
    by (simp add: after_pending_def)
  from poll_deadline [OF this] show ?thesis
    unfolding run_reaches_round [OF acc pend time] by (simp add: after_pending_def)
qed

lemma poll_all_pending:
  assumes "\<forall>k. status_code (status_api b u k) = 202"
  shows "fst (poll_loop b u st ms mm k w) = Inl (RefreshTimedOut mm)"
  using assms
proof (induction b u st ms mm k w rule: poll_loop.induct)
  case (1 b u st ms mm k w)
  show ?case
  proof (cases "now w - st < ms")
    case True
    from "1.prems" have s: "status_code (status_api b u k) = 202" by simp
    then have n: "status_code (status_api b u k) \<noteq> 200" by simp
    from "1.IH" [OF True refl refl n s "1.prems"]
    have "fst (poll_loop b u st ms mm (Suc k)
            (w\<lparr>now := now w + int (status_latency b k), trace := trace w @ [GetStatus u]\<rparr>
              \<lparr>now := now (w\<lparr>now := now w + int (status_latency b k),
                              trace := trace w @ [GetStatus u]\<rparr>) + 30,
                trace := trace (w\<lparr>now := now w + int (status_latency b k),
                                  trace := trace w @ [GetStatus u]\<rparr>) @ [Sleep 30]\<rparr>)) =
          Inl (RefreshTimedOut mm)" .
    then show ?thesis unfolding poll_step_pending [OF True s] by simp
  next
    case False
    then show ?thesis unfolding poll_deadline [OF False] by simp
  qed
qed

lemma run_never_done:
  assumes acc: "refresh_accepted b eid u"
    and pend: "\<forall>k. status_code (status_api b u k) = 202"
  shows "fst (trigger_and_wait b eid evs mm) = Inl (RefreshTimedOut mm)"
  unfolding trigger_polls [OF acc] using poll_all_pending [OF pend] by simp

lemma polls_made_resolved:
  assumes "get_sql_endpoint_for_lakehouse e ws name tok = (Inr eid, evs)"
  shows "polls_made (evs @ [RefreshMetadata eid]) = 0"
proof -
  from resolver_trace_no_poll [of e ws name tok] assms have "polls_made evs = 0" by simp
  then show ?thesis by (simp add: polls_made_def)
qed

lemma trigger_immediate:
  assumes "status_code (refresh_api b eid) = 200 \<or>
           status_code (refresh_api b eid) = 202 \<and>
           (location (refresh_api b eid) = None \<or> location (refresh_api b eid) = Some [])"
  shows "trigger_and_wait b eid evs mm = (Inr True, evs @ [RefreshMetadata eid])"
  using assms by (auto simp add: trigger_and_wait_def Let_def)

lemma trigger_failed:
  assumes "status_code (refresh_api b eid) \<noteq> 200" "status_code (refresh_api b eid) \<noteq> 202"
  shows "trigger_and_wait b eid evs mm =
         (Inl (TriggerFailed (status_code (refresh_api b eid)) (body_text (refresh_api b eid))),
          evs @ [RefreshMetadata eid])"
  using assms by (simp add: trigger_and_wait_def Let_def)

lemma pending_elapsed_before:
  assumes "pending_elapsed b n < ms"
  shows "\<forall>i<n. pending_elapsed b i < ms"
proof (intro allI impI)
  fix i assume "i < n"
  then have "i \<le> n" by simp
  then have "pending_elapsed b i \<le> pending_elapsed b n" by (rule pending_elapsed_mono)
  with assms show "pending_elapsed b i < ms" by simp
qed

lemma job_backend_sel:
  "status_api (job_backend rf st) u k = st k"
  "status_latency (job_backend rf st) k = 0"
  "refresh_api (job_backend rf st) eid = rf"
  by (simp_all add: job_backend_def example_backend_def)

lemma pending_elapsed_job: "pending_elapsed (job_backend rf st) n = 30 * int n"
  by (induction n) (simp_all add: job_backend_sel)

lemma resolve_found:
  assumes l: "status_code (lakehouses_api (fabric e ws tok)) = 200"
    and t: "find_lakehouse (json_value (lakehouses_api (fabric e ws tok))) name = Inr target"
  shows "get_sql_endpoint_for_lakehouse e ws name tok =
    (if status_code (sqlendpoints_api (fabric e ws tok)) = 200
     then (case select_direct_path (str_lower e) (json_value (sqlendpoints_api (fabric e ws tok)))
                  name of
             None \<Rightarrow> (Inl (NoMatchingEndpoint name
                        (map displayName (json_value (sqlendpoints_api (fabric e ws tok))))),
                      [ListLakehouses, ListSqlEndpoints])
           | Some ep \<Rightarrow> (Inr (item_id ep), [ListLakehouses, ListSqlEndpoints]))
     else if status_code (items_api (fabric e ws tok)) \<noteq> 200
     then (Inl (ItemsFailed (status_code (items_api (fabric e ws tok)))
                  (body_text (items_api (fabric e ws tok)))),
           [ListLakehouses, ListSqlEndpoints, ListItems])
     else (case select_items_path (str_lower e)
                  (sql_endpoints_of_items (json_value (items_api (fabric e ws tok)))) name of
             None \<Rightarrow> (Inl (NoMatchingEndpoint name
                        (map displayName
                           (sql_endpoints_of_items (json_value (items_api (fabric e ws tok)))))),
                      [ListLakehouses, ListSqlEndpoints, ListItems])
           | Some ep \<Rightarrow> (Inr (item_id ep), [ListLakehouses, ListSqlEndpoints, ListItems])))"
  unfolding get_sql_endpoint_for_lakehouse_def Let_def by (simp add: l t)

lemma resolve_found_proceeds:
  assumes l: "status_code (lakehouses_api (fabric e ws tok)) = 200"
    and t: "find_lakehouse (json_value (lakehouses_api (fabric e ws tok))) name = Inr target"
  shows "take 2 (snd (get_sql_endpoint_for_lakehouse e ws name tok)) =
           [ListLakehouses, ListSqlEndpoints]"
    and "fst (get_sql_endpoint_for_lakehouse e ws name tok) \<noteq> Inl (NotFound name avail)"
  unfolding resolve_found [OF l t] by (simp_all split: option.split)

lemma first_at_weaker:
  assumes "first_at P xs k" and "Q (xs ! k)" and "\<forall>x. Q x \<longrightarrow> P x"
  shows "first_at Q xs k"
  using assms unfolding first_at_def by blast

lemma marker_contains: "marker_match lw name ep \<Longrightarrow> contains_name lw name ep"
  by (simp add: marker_match_iff)

lemma select_agree_iff:
  "select_items_path lw eps name = select_direct_path lw eps name \<longleftrightarrow>
   paths_agree_on lw eps name"
proof (cases "find (contains_name lw name) eps")
  case None
  then have n: "\<forall>ep \<in> set eps. \<not> contains_name lw name ep" by (simp add: find_None_iff)
  then have "\<forall>ep \<in> set eps. \<not> marker_match lw name ep \<and> \<not> exact_match lw name ep"
    using marker_contains exact_contains by blast
  then have "select_items_path lw eps name = None" by (rule select_items_none)
  with None show ?thesis
    by (simp add: select_direct_path_def relaxed_match_eq paths_agree_on_def)
next
  case (Some c)
  from find_first_at [OF Some] obtain k where k: "first_at (contains_name lw name) eps k"
    and c: "c = eps ! k" by (elim exE conjE)
  from Some have d: "select_direct_path lw eps name = Some c"
    by (simp add: select_direct_path_def relaxed_match_eq)
  from k have cc: "contains_name lw name c" by (simp add: first_at_def c)
  from k have cm: "c \<in> set eps" by (simp add: first_at_def c)
  show ?thesis
  proof
    assume "select_items_path lw eps name = select_direct_path lw eps name"
    with d have s: "select_items_path lw eps name = Some c" by simp
    show "paths_agree_on lw eps name"
    proof (cases "has_marker lw c")
      case True
      with Some show ?thesis by (simp add: paths_agree_on_def)
    next
      case False
      then have nm: "\<not> marker_match lw name c" by (simp add: marker_match_iff)
      have fm: "find (marker_match lw name) eps = None"
      proof (cases "find (marker_match lw name) eps")
        case None
        then show ?thesis .
      next
        case (Some d')
        with s have "d' = c" by (simp add: select_items_path_def)
        with Some have "find (marker_match lw name) eps = Some c" by simp
        then have "marker_match lw name c" unfolding find_Some_iff by blast
        with nm show ?thesis by simp
      qed
      with s have "find (exact_match lw name) eps = Some c" by (simp add: select_items_path_def)
      then have ex: "exact_match lw name c" unfolding find_Some_iff by blast
      from fm have "\<not> (\<exists>other \<in> set eps. marker_match lw name other)"
        by (simp add: find_None_iff)
      with ex Some show ?thesis by (simp add: paths_agree_on_def)
    qed
  next
    assume "paths_agree_on lw eps name"
    with Some have a: "has_marker lw c \<or>
        \<not> (\<exists>other \<in> set eps. marker_match lw name other) \<and> exact_match lw name c"
      by (simp add: paths_agree_on_def)
    have "select_items_path lw eps name = Some c"
    proof (cases "has_marker lw c")
      case True
      with cc have m: "marker_match lw name (eps ! k)" by (simp add: marker_match_iff c)
      have imp: "\<forall>x. marker_match lw name x \<longrightarrow> contains_name lw name x"
        by (simp add: marker_match_iff)
      from k m imp have "first_at (marker_match lw name) eps k" by (rule first_at_weaker)
      then show ?thesis unfolding c by (rule select_items_marker)
    next
      case False
      with a have n: "\<forall>ep \<in> set eps. \<not> marker_match lw name ep"
        and e: "exact_match lw name (eps ! k)" by (auto simp: c)
      have imp: "\<forall>x. exact_match lw name x \<longrightarrow> contains_name lw name x"
        by (simp add: exact_contains)
      from k e imp have "first_at (exact_match lw name) eps k" by (rule first_at_weaker)
      with n show ?thesis unfolding c by (rule select_items_exact)
    qed
    with d show "select_items_path lw eps name = select_direct_path lw eps name" by simp
  qed
qed

lemma select_direct_mem:
  assumes "select_direct_path lw eps name = Some ep"
  shows "ep \<in> set eps"
  using assms unfolding select_direct_path_def find_Some_iff by auto

lemma outcomes_differ:
  assumes ne: "select_items_path lw eps name \<noteq> select_direct_path lw eps name"
    and dist: "distinct (map item_id eps)"
  shows "(case select_items_path lw eps name of
            None \<Rightarrow> Inl (NoMatchingEndpoint name (map displayName eps))
          | Some ep \<Rightarrow> Inr (item_id ep)) \<noteq>
         (case select_direct_path lw eps name of
            None \<Rightarrow> Inl (NoMatchingEndpoint name (map displayName eps))
          | Some ep \<Rightarrow> Inr (item_id ep))"
proof (cases "select_items_path lw eps name")
  case None
  with ne obtain c where "select_direct_path lw eps name = Some c"
    by (cases "select_direct_path lw eps name") simp_all
  with None show ?thesis by simp
next
  case (Some d)
  show ?thesis
  proof (cases "select_direct_path lw eps name")
    case None
    with Some show ?thesis by simp
  next
    case c: (Some c)
    from Some have dm: "d \<in> set eps" by (rule select_items_mem)
    from c have cm: "c \<in> set eps" by (rule select_direct_mem)
    from ne Some c have "d \<noteq> c" by simp
    moreover from dist have "inj_on item_id (set eps)" by (simp add: distinct_map)
    ultimately have "item_id d \<noteq> item_id c" using dm cm by (simp add: inj_on_def) blast
    with Some c show ?thesis by simp
  qed
qed

lemma pair_env_sel:
  "fabric (pair_env b1 b2) ''ws1'' tok = b1"
  "fabric (pair_env b1 b2) ''ws2'' tok = b2"
  "str_lower (pair_env b1 b2) = ascii_lower"
  by (simp_all add: pair_env_def)

section \<open>Claims\<close>

text \<open>
  C1 (as the script behaves). On the items path (the direct listing did not answer 200,
  the items listing did) the candidates are searched by two rules in strict priority.
  Rule (a): the display name, lowered by \<^verbatim>\<open>str.lower()\<close>, contains the lowered
  requested name and also contains \<open>sql\<close> or \<open>analytics\<close>; the first such endpoint in
  listing order is selected. Rule (b), equality of the lowered display name and the
  lowered name, is tried only when no endpoint satisfies rule (a), again taking the first
  match. For the endpoints \<open>foo - SQL analytics endpoint\<close> and \<open>foo\<close> and the name
  \<open>foo\<close>, the first endpoint is selected.
\<close>

theorem items_path_rule_priority:
  assumes path: "on_items_path (fabric e ws tok) name"
    and eps: "eps = sql_endpoints_of_items (json_value (items_api (fabric e ws tok)))"
    and r: "r = fst (get_sql_endpoint_for_lakehouse e ws name tok)"
  shows "(first_at (marker_match (str_lower e) name) eps i \<longrightarrow>
            r = Inr (item_id (eps ! i))) \<and>
         ((\<forall>ep \<in> set eps. \<not> marker_match (str_lower e) name ep) \<and>
          first_at (exact_match (str_lower e) name) eps j \<longrightarrow>
            r = Inr (item_id (eps ! j))) \<and>
         (marker_match (str_lower e) name ep \<longleftrightarrow>
            contains_name (str_lower e) name ep \<and> has_marker (str_lower e) ep) \<and>
         (contains_name (str_lower e) name ep \<longleftrightarrow>
            (\<exists>pre post. str_lower e (displayName ep) = pre @ str_lower e name @ post)) \<and>
         (exact_match (str_lower e) name ep \<longleftrightarrow> str_lower e (displayName ep) = str_lower e name) \<and>
         fst (get_sql_endpoint_for_lakehouse (example_env foo_items_backend) ''ws'' ''foo''
                ''token'') = Inr ''e1''"
proof (intro conjI impI)
  assume "first_at (marker_match (str_lower e) name) eps i"
  then have "select_items_path (str_lower e) eps name = Some (eps ! i)" by (rule select_items_marker)
  then show "r = Inr (item_id (eps ! i))"
    unfolding r resolve_items_path [OF path] eps by simp
next
  assume "(\<forall>ep \<in> set eps. \<not> marker_match (str_lower e) name ep) \<and> first_at (exact_match (str_lower e) name) eps j"
  then have "select_items_path (str_lower e) eps name = Some (eps ! j)" by (simp add: select_items_exact)
  then show "r = Inr (item_id (eps ! j))"
    unfolding r resolve_items_path [OF path] eps by simp
next
  show "marker_match (str_lower e) name ep \<longleftrightarrow> contains_name (str_lower e) name ep \<and> has_marker (str_lower e) ep"
    by (rule marker_match_iff)
next
  show "contains_name (str_lower e) name ep \<longleftrightarrow> (\<exists>pre post. str_lower e (displayName ep) = pre @ str_lower e name @ post)"
    by (rule contains_name_iff)
next
  show "exact_match (str_lower e) name ep \<longleftrightarrow> str_lower e (displayName ep) = str_lower e name"
    by (simp add: exact_match_def)
next
  show "fst (get_sql_endpoint_for_lakehouse (example_env foo_items_backend) ''ws'' ''foo''
                ''token'') = Inr ''e1''"
    by code_simp
qed

theorem items_path_rule_priority_witness:
  "on_items_path oof_items_backend ''foo'' \<and>
   first_at (marker_match ascii_lower ''foo'')
     (sql_endpoints_of_items (json_value (items_api oof_items_backend))) 1 \<and>
   fst (get_sql_endpoint_for_lakehouse (example_env oof_items_backend) ''ws'' ''foo'' ''token'') =
     Inr ''e1'' \<and>
   on_items_path plain_items_backend ''foo'' \<and>
   \<not> (\<exists>ep \<in> set (sql_endpoints_of_items (json_value (items_api plain_items_backend))).
        marker_match ascii_lower ''foo'' ep) \<and>
   first_at (exact_match ascii_lower ''foo'')
     (sql_endpoints_of_items (json_value (items_api plain_items_backend))) 1 \<and>
   fst (get_sql_endpoint_for_lakehouse (example_env plain_items_backend) ''ws'' ''foo'' ''token'') =
     Inr ''e2''"
proof -
  let ?e1 = "example_env oof_items_backend" and ?e2 = "example_env plain_items_backend"
  let ?eps1 = "sql_endpoints_of_items (json_value (items_api oof_items_backend))"
  let ?eps2 = "sql_endpoints_of_items (json_value (items_api plain_items_backend))"
  have p1: "on_items_path oof_items_backend ''foo''" by code_simp
  have p2: "on_items_path plain_items_backend ''foo''" by code_simp
  have f1: "first_at (marker_match ascii_lower ''foo'') ?eps1 1" by code_simp
  have n2: "\<not> (\<exists>ep \<in> set ?eps2. marker_match ascii_lower ''foo'' ep)" by code_simp
  have f2: "first_at (exact_match ascii_lower ''foo'') ?eps2 1" by code_simp
  have v1: "item_id (?eps1 ! 1) = ''e1''" by code_simp
  have v2: "item_id (?eps2 ! 1) = ''e2''" by code_simp
  have q1: "on_items_path (fabric ?e1 ''ws'' ''token'') ''foo''"
    using p1 by (simp only: fabric_example_env str_lower_example_env)
  have q2: "on_items_path (fabric ?e2 ''ws'' ''token'') ''foo''"
    using p2 by (simp only: fabric_example_env str_lower_example_env)
  note a1 = items_path_rule_priority [OF q1 refl refl, where i = 1, THEN conjunct1]
  note a2 = items_path_rule_priority [OF q2 refl refl, where j = 1, THEN conjunct2, THEN conjunct1]
  have t1: "first_at (marker_match ascii_lower ''foo'') ?eps1 1 \<longrightarrow>
      fst (get_sql_endpoint_for_lakehouse ?e1 ''ws'' ''foo'' ''token'') = Inr (item_id (?eps1 ! 1))"
    using a1 by (simp only: fabric_example_env str_lower_example_env)
  have t2: "(\<forall>ep \<in> set ?eps2. \<not> marker_match ascii_lower ''foo'' ep) \<and> first_at (exact_match ascii_lower ''foo'') ?eps2 1 \<longrightarrow>
      fst (get_sql_endpoint_for_lakehouse ?e2 ''ws'' ''foo'' ''token'') = Inr (item_id (?eps2 ! 1))"
    using a2 by (simp only: fabric_example_env str_lower_example_env)
  from t1 f1 have c1: "fst (get_sql_endpoint_for_lakehouse ?e1 ''ws'' ''foo'' ''token'') = Inr ''e1''"
    by (simp only: v1 simp_thms)
  from n2 have "\<forall>ep \<in> set ?eps2. \<not> marker_match ascii_lower ''foo'' ep" by blast
  with t2 f2 have c2: "fst (get_sql_endpoint_for_lakehouse ?e2 ''ws'' ''foo'' ''token'') = Inr ''e2''"
    by (simp only: v2 simp_thms)
  from p1 f1 c1 p2 n2 f2 c2 show ?thesis by (intro conjI)
qed

text \<open>
  C1 as stated does not hold: the display name below contains the requested name
  letter for letter, and the token \<open>SQL\<close>, yet no endpoint is selected, because
  \<^verbatim>\<open>str.lower()\<close> turns the capital sigma that ends the name into the final sigma and
  the same capital sigma inside the display name into the ordinary one.
\<close>

theorem literal_containment_not_matched:
  "on_items_path greek_items_backend alpha_sigma \<and>
   sql_endpoints_of_items (json_value (items_api greek_items_backend)) =
     [endpoint_item ''e1'' alpha_sigma_alpha_endpoint] \<and>
   py_in alpha_sigma alpha_sigma_alpha_endpoint \<and>
   py_in ''SQL'' alpha_sigma_alpha_endpoint \<and>
   fst (get_sql_endpoint_for_lakehouse (greek_env greek_items_backend) ''ws'' alpha_sigma
          ''token'') =
     Inl (NoMatchingEndpoint alpha_sigma [alpha_sigma_alpha_endpoint])"
proof (intro conjI)
  show "on_items_path greek_items_backend alpha_sigma" by code_simp
  show "sql_endpoints_of_items (json_value (items_api greek_items_backend)) =
     [endpoint_item ''e1'' alpha_sigma_alpha_endpoint]" by code_simp
  show "py_in alpha_sigma alpha_sigma_alpha_endpoint" by code_simp
  show "py_in ''SQL'' alpha_sigma_alpha_endpoint" by code_simp
  show "fst (get_sql_endpoint_for_lakehouse (greek_env greek_items_backend) ''ws'' alpha_sigma
          ''token'') =
     Inl (NoMatchingEndpoint alpha_sigma [alpha_sigma_alpha_endpoint])" by code_simp
qed

text \<open>
  C2. Once the refresh POST has answered 202 with a status location, the location is
  polled as long as the elapsed time is below \<open>max_wait_minutes * 60\<close> seconds. A poll
  answering 200 ends the run with success. A poll answering 202 is followed by a sleep
  of 30 seconds and then by the next deadline check; so a 202 followed by a 200 gives
  success after exactly one sleep, provided the second check is still before the
  deadline. When the deadline is reached while every poll so far answered 202, the run
  fails with \<open>RefreshTimedOut\<close>; a location that always answers 202 therefore yields
  \<open>RefreshTimedOut\<close> for every \<open>max_wait_minutes\<close>, in particular for 1.
\<close>

theorem poll_until_done_or_deadline:
  assumes res: "get_sql_endpoint_for_lakehouse e ws name (getToken e ''pbi'') = (Inr eid, evs)"
    and b: "b = fabric e ws (getToken e ''pbi'')"
    and acc: "refresh_accepted b eid status_url"
  shows "((\<forall>i<n. status_code (status_api b status_url i) = 202) \<and>
          pending_elapsed b n < mm * 60 \<and> status_code (status_api b status_url n) = 200 \<longrightarrow>
            refresh_sql_endpoint_and_wait e name ws mm =
              (Inr True,
               evs @ [RefreshMetadata eid] @ pending_trace status_url n @ [GetStatus status_url])) \<and>
         (status_code (status_api b status_url 0) = 202 \<and>
          status_code (status_api b status_url 1) = 200 \<and>
          int (status_latency b 0) + 30 < mm * 60 \<longrightarrow>
            refresh_sql_endpoint_and_wait e name ws mm =
              (Inr True,
               evs @ [RefreshMetadata eid, GetStatus status_url, Sleep 30, GetStatus status_url])) \<and>
         ((\<forall>i<n. status_code (status_api b status_url i) = 202) \<and>
          (\<forall>i<n. pending_elapsed b i < mm * 60) \<and> mm * 60 \<le> pending_elapsed b n \<longrightarrow>
            refresh_sql_endpoint_and_wait e name ws mm =
              (Inl (RefreshTimedOut mm),
               evs @ [RefreshMetadata eid] @ pending_trace status_url n)) \<and>
         ((\<forall>k. status_code (status_api b status_url k) = 202) \<longrightarrow>
            fst (refresh_sql_endpoint_and_wait e name ws mm) = Inl (RefreshTimedOut mm) \<and>
            fst (refresh_sql_endpoint_and_wait e name ws 1) = Inl (RefreshTimedOut 1))"
proof (intro conjI impI)
  assume a: "(\<forall>i<n. status_code (status_api b status_url i) = 202) \<and>
          pending_elapsed b n < mm * 60 \<and> status_code (status_api b status_url n) = 200"
  then have pend: "\<forall>i<n. status_code (status_api b status_url i) = 202"
    and last: "pending_elapsed b n < mm * 60"
    and fin: "status_code (status_api b status_url n) = 200" by simp_all
  from last have time: "\<forall>i<n. pending_elapsed b i < mm * 60" by (rule pending_elapsed_before)
  show "refresh_sql_endpoint_and_wait e name ws mm =
              (Inr True,
               evs @ [RefreshMetadata eid] @ pending_trace status_url n @ [GetStatus status_url])"
    unfolding refresh_after_resolution [OF res]
    using run_succeeds_after [OF acc pend time last fin] by (simp only: b)
next
  assume a: "status_code (status_api b status_url 0) = 202 \<and>
          status_code (status_api b status_url 1) = 200 \<and>
          int (status_latency b 0) + 30 < mm * 60"
  then have pend: "\<forall>i<1. status_code (status_api b status_url i) = 202" by simp
  from a have last: "pending_elapsed b 1 < mm * 60" by simp
  from a have fin: "status_code (status_api b status_url 1) = 200" by simp
  from last have time: "\<forall>i<1. pending_elapsed b i < mm * 60" by (rule pending_elapsed_before)
  have "refresh_sql_endpoint_and_wait e name ws mm =
      (Inr True, evs @ [RefreshMetadata eid] @ pending_trace status_url 1 @ [GetStatus status_url])"
    unfolding refresh_after_resolution [OF res]
    using run_succeeds_after [OF acc pend time last fin] by (simp only: b)
  then show "refresh_sql_endpoint_and_wait e name ws mm =
              (Inr True,
               evs @ [RefreshMetadata eid, GetStatus status_url, Sleep 30, GetStatus status_url])"
    by simp
next
  assume a: "(\<forall>i<n. status_code (status_api b status_url i) = 202) \<and>
          (\<forall>i<n. pending_elapsed b i < mm * 60) \<and> mm * 60 \<le> pending_elapsed b n"
  then have pend: "\<forall>i<n. status_code (status_api b status_url i) = 202"
    and time: "\<forall>i<n. pending_elapsed b i < mm * 60"
    and late: "mm * 60 \<le> pending_elapsed b n" by simp_all
  show "refresh_sql_endpoint_and_wait e name ws mm =
              (Inl (RefreshTimedOut mm),
               evs @ [RefreshMetadata eid] @ pending_trace status_url n)"
    unfolding refresh_after_resolution [OF res]
    using run_times_out_after [OF acc pend time late] by (simp only: b)
next
  assume pend: "\<forall>k. status_code (status_api b status_url k) = 202"
  show "fst (refresh_sql_endpoint_and_wait e name ws mm) = Inl (RefreshTimedOut mm)"
    unfolding refresh_after_resolution [OF res]
    using run_never_done [OF acc pend] by (simp only: b)
next
  assume pend: "\<forall>k. status_code (status_api b status_url k) = 202"
  show "fst (refresh_sql_endpoint_and_wait e name ws 1) = Inl (RefreshTimedOut 1)"
    unfolding refresh_after_resolution [OF res]
    using run_never_done [OF acc pend] by (simp only: b)
qed

theorem poll_until_done_or_deadline_witness:
  "refresh_accepted one_pending_backend ''e1'' ''https://status/op1'' \<and>
   status_code (status_api one_pending_backend ''https://status/op1'' 0) = 202 \<and>
   status_code (status_api one_pending_backend ''https://status/op1'' 1) = 200 \<and>
   refresh_sql_endpoint_and_wait (example_env one_pending_backend) ''foo'' ''ws'' 30 =
     (Inr True,
      [ListLakehouses, ListSqlEndpoints, RefreshMetadata ''e1'',
       GetStatus ''https://status/op1'', Sleep 30, GetStatus ''https://status/op1'']) \<and>
   refresh_accepted never_done_backend ''e1'' ''https://status/op1'' \<and>
   refresh_sql_endpoint_and_wait (example_env never_done_backend) ''foo'' ''ws'' 1 =
     (Inl (RefreshTimedOut 1),
      [ListLakehouses, ListSqlEndpoints, RefreshMetadata ''e1'',
       GetStatus ''https://status/op1'', Sleep 30,
       GetStatus ''https://status/op1'', Sleep 30]) \<and>
   fst (refresh_sql_endpoint_and_wait (example_env never_done_backend) ''foo'' ''ws'' 1) =
     Inl (RefreshTimedOut 1)"
proof -
  let ?o = "example_env one_pending_backend" and ?n = "example_env never_done_backend"
  let ?u = "''https://status/op1''"
  have r1: "get_sql_endpoint_for_lakehouse ?o ''ws'' ''foo'' (getToken ?o ''pbi'') =
      (Inr ''e1'', [ListLakehouses, ListSqlEndpoints])" by code_simp
  have r2: "get_sql_endpoint_for_lakehouse ?n ''ws'' ''foo'' (getToken ?n ''pbi'') =
      (Inr ''e1'', [ListLakehouses, ListSqlEndpoints])" by code_simp
  have acc1: "refresh_accepted one_pending_backend ''e1'' ?u" by code_simp
  have acc2: "refresh_accepted never_done_backend ''e1'' ?u" by code_simp
  have q1: "refresh_accepted (fabric ?o ''ws'' (getToken ?o ''pbi'')) ''e1'' ?u"
    using acc1 by (simp only: fabric_example_env str_lower_example_env)
  have q2: "refresh_accepted (fabric ?n ''ws'' (getToken ?n ''pbi'')) ''e1'' ?u"
    using acc2 by (simp only: fabric_example_env str_lower_example_env)
  have s0: "status_code (status_api one_pending_backend ?u 0) = 202" by code_simp
  have s1: "status_code (status_api one_pending_backend ?u 1) = 200" by code_simp
  have l0: "int (status_latency one_pending_backend 0) + 30 < 30 * 60"
    by (simp add: one_pending_backend_def job_backend_sel)
  have pend: "\<forall>k. status_code (status_api never_done_backend ?u k) = 202"
    by (simp add: never_done_backend_def job_backend_sel reply_def)
  then have pend2: "\<forall>i<2. status_code (status_api never_done_backend ?u i) = 202" by simp
  have time2: "\<forall>i<2. pending_elapsed never_done_backend i < 1 * 60"
    by (simp add: never_done_backend_def pending_elapsed_job)
  have late2: "(1::int) * 60 \<le> pending_elapsed never_done_backend 2"
    by (simp add: never_done_backend_def pending_elapsed_job)
  have pt: "pending_trace ?u 2 = [GetStatus ?u, Sleep 30, GetStatus ?u, Sleep 30]"
    by (simp add: numeral_2_eq_2)
  note a = poll_until_done_or_deadline [OF r1 refl q1, where mm = 30,
      unfolded fabric_example_env str_lower_example_env, THEN conjunct2, THEN conjunct1]
  note b = poll_until_done_or_deadline [OF r2 refl q2, where mm = 1 and n = 2,
      unfolded fabric_example_env str_lower_example_env, THEN conjunct2, THEN conjunct2]
  from s0 s1 l0 have "status_code (status_api one_pending_backend ?u 0) = 202 \<and>
      status_code (status_api one_pending_backend ?u 1) = 200 \<and>
      int (status_latency one_pending_backend 0) + 30 < 30 * 60"
    by (intro conjI)
  with a have "refresh_sql_endpoint_and_wait ?o ''foo'' ''ws'' 30 =
      (Inr True, [ListLakehouses, ListSqlEndpoints] @
         [RefreshMetadata ''e1'', GetStatus ?u, Sleep 30, GetStatus ?u])"
    by (rule mp)
  then have c1: "refresh_sql_endpoint_and_wait ?o ''foo'' ''ws'' 30 =
      (Inr True, [ListLakehouses, ListSqlEndpoints, RefreshMetadata ''e1'',
         GetStatus ?u, Sleep 30, GetStatus ?u])"
    by simp
  from pend2 time2 late2 have "(\<forall>i<2. status_code (status_api never_done_backend ?u i) = 202) \<and>
      (\<forall>i<2. pending_elapsed never_done_backend i < 1 * 60) \<and>
      1 * 60 \<le> pending_elapsed never_done_backend 2"
    by (intro conjI)
  with b [THEN conjunct1] have "refresh_sql_endpoint_and_wait ?n ''foo'' ''ws'' 1 =
      (Inl (RefreshTimedOut 1),
       [ListLakehouses, ListSqlEndpoints] @ [RefreshMetadata ''e1''] @ pending_trace ?u 2)"
    by (rule mp)
  then have c2: "refresh_sql_endpoint_and_wait ?n ''foo'' ''ws'' 1 =
      (Inl (RefreshTimedOut 1),
       [ListLakehouses, ListSqlEndpoints, RefreshMetadata ''e1'',
        GetStatus ?u, Sleep 30, GetStatus ?u, Sleep 30])"
    by (simp add: pt)
  from b [THEN conjunct2] pend
  have "fst (refresh_sql_endpoint_and_wait ?n ''foo'' ''ws'' 1) = Inl (RefreshTimedOut 1) \<and>
        fst (refresh_sql_endpoint_and_wait ?n ''foo'' ''ws'' 1) = Inl (RefreshTimedOut 1)"
    by (rule mp)
  then have c3: "fst (refresh_sql_endpoint_and_wait ?n ''foo'' ''ws'' 1) = Inl (RefreshTimedOut 1)"
    by (rule conjunct1)
  from acc1 s0 s1 c1 acc2 c2 c3 show ?thesis by (intro conjI)
qed

text \<open>
  C3. Resolution of the storage resource takes the first lakehouse of the listing whose
  \<open>displayName\<close> equals the requested name exactly, character by character (no case
  folding), and then goes on to the endpoint search: the direct listing is requested
  next, the outcome is that of the search, and it is never \<open>NotFound\<close>. When no lakehouse
  has that name, resolution fails with \<open>NotFound\<close>, the error carries the display names
  of all lakehouses of the listing, and the one listing request is all that was issued.
\<close>

theorem lakehouse_by_exact_name:
  assumes listed: "status_code (lakehouses_api (fabric e ws tok)) = 200"
    and lhs: "lakehouses = json_value (lakehouses_api (fabric e ws tok))"
    and r: "r = get_sql_endpoint_for_lakehouse e ws name tok"
  shows "(first_at (\<lambda>lh. displayName lh = name) lakehouses i \<longrightarrow>
            find_lakehouse lakehouses name = Inr (lakehouses ! i) \<and>
            take 2 (snd r) = [ListLakehouses, ListSqlEndpoints] \<and>
            (\<forall>avail. fst r \<noteq> Inl (NotFound name avail)) \<and>
            r = (if status_code (sqlendpoints_api (fabric e ws tok)) = 200
                 then (case select_direct_path (str_lower e)
                              (json_value (sqlendpoints_api (fabric e ws tok))) name of
                         None \<Rightarrow>
                           (Inl (NoMatchingEndpoint name
                              (map displayName (json_value (sqlendpoints_api (fabric e ws tok))))),
                            [ListLakehouses, ListSqlEndpoints])
                       | Some ep \<Rightarrow> (Inr (item_id ep), [ListLakehouses, ListSqlEndpoints]))
                 else if status_code (items_api (fabric e ws tok)) \<noteq> 200
                 then (Inl (ItemsFailed (status_code (items_api (fabric e ws tok)))
                              (body_text (items_api (fabric e ws tok)))),
                       [ListLakehouses, ListSqlEndpoints, ListItems])
                 else (case select_items_path (str_lower e)
                              (sql_endpoints_of_items (json_value (items_api (fabric e ws tok))))
                              name of
                         None \<Rightarrow>
                           (Inl (NoMatchingEndpoint name
                              (map displayName
                                 (sql_endpoints_of_items
                                    (json_value (items_api (fabric e ws tok)))))),
                            [ListLakehouses, ListSqlEndpoints, ListItems])
                       | Some ep \<Rightarrow>
                           (Inr (item_id ep), [ListLakehouses, ListSqlEndpoints, ListItems])))) \<and>
         ((\<forall>lh \<in> set lakehouses. displayName lh \<noteq> name) \<longrightarrow>
            find_lakehouse lakehouses name = Inl (NotFound name (map displayName lakehouses)) \<and>
            r = (Inl (NotFound name (map displayName lakehouses)), [ListLakehouses]))"
proof (intro conjI impI allI)
  assume f: "first_at (\<lambda>lh. displayName lh = name) lakehouses i"
  then have "find (\<lambda>lh. displayName lh = name) lakehouses = Some (lakehouses ! i)"
    by (rule first_at_find)
  then have t: "find_lakehouse lakehouses name = Inr (lakehouses ! i)"
    by (simp add: find_lakehouse_def)
  then show "find_lakehouse lakehouses name = Inr (lakehouses ! i)" .
  from t have t': "find_lakehouse (json_value (lakehouses_api (fabric e ws tok))) name =
      Inr (lakehouses ! i)" by (simp only: lhs)
  show "take 2 (snd r) = [ListLakehouses, ListSqlEndpoints]"
    unfolding r by (rule resolve_found_proceeds(1) [OF listed t'])
  show "fst r \<noteq> Inl (NotFound name avail)" for avail
    unfolding r by (rule resolve_found_proceeds(2) [OF listed t'])
  show "r = (if status_code (sqlendpoints_api (fabric e ws tok)) = 200
                 then (case select_direct_path (str_lower e)
                              (json_value (sqlendpoints_api (fabric e ws tok))) name of
                         None \<Rightarrow>
                           (Inl (NoMatchingEndpoint name
                              (map displayName (json_value (sqlendpoints_api (fabric e ws tok))))),
                            [ListLakehouses, ListSqlEndpoints])
                       | Some ep \<Rightarrow> (Inr (item_id ep), [ListLakehouses, ListSqlEndpoints]))
                 else if status_code (items_api (fabric e ws tok)) \<noteq> 200
                 then (Inl (ItemsFailed (status_code (items_api (fabric e ws tok)))
                              (body_text (items_api (fabric e ws tok)))),
                       [ListLakehouses, ListSqlEndpoints, ListItems])
                 else (case select_items_path (str_lower e)
                              (sql_endpoints_of_items (json_value (items_api (fabric e ws tok))))
                              name of
                         None \<Rightarrow>
                           (Inl (NoMatchingEndpoint name
                              (map displayName
                                 (sql_endpoints_of_items
                                    (json_value (items_api (fabric e ws tok)))))),
                            [ListLakehouses, ListSqlEndpoints, ListItems])
                       | Some ep \<Rightarrow>
                           (Inr (item_id ep), [ListLakehouses, ListSqlEndpoints, ListItems])))"
    unfolding r by (rule resolve_found [OF listed t'])
next
  assume n: "\<forall>lh \<in> set lakehouses. displayName lh \<noteq> name"
  then show "find_lakehouse lakehouses name = Inl (NotFound name (map displayName lakehouses))"
    by (rule find_lakehouse_none)
  then have "find_lakehouse (json_value (lakehouses_api (fabric e ws tok))) name =
      Inl (NotFound name (map displayName lakehouses))" by (simp only: lhs)
  with listed show "r = (Inl (NotFound name (map displayName lakehouses)), [ListLakehouses])"
    unfolding r by (rule resolve_not_found)
qed

theorem lakehouse_by_exact_name_witness:
  "status_code (lakehouses_api twin_backend) = 200 \<and>
   first_at (\<lambda>lh. displayName lh = ''foo'') (json_value (lakehouses_api twin_backend)) 1 \<and>
   find_lakehouse (json_value (lakehouses_api twin_backend)) ''foo'' =
     Inr (lakehouse_item ''l1'' ''foo'') \<and>
   get_sql_endpoint_for_lakehouse (example_env twin_backend) ''ws'' ''foo'' ''token'' =
     (Inr ''e1'', [ListLakehouses, ListSqlEndpoints]) \<and>
   status_code (lakehouses_api case_backend) = 200 \<and>
   ''foo'' \<notin> set (map displayName (json_value (lakehouses_api case_backend))) \<and>
   find_lakehouse (json_value (lakehouses_api case_backend)) ''foo'' =
     Inl (NotFound ''foo'' [''Foo'', ''bar'']) \<and>
   get_sql_endpoint_for_lakehouse (example_env case_backend) ''ws'' ''foo'' ''token'' =
     (Inl (NotFound ''foo'' [''Foo'', ''bar'']), [ListLakehouses])"
proof -
  let ?t = "example_env twin_backend" and ?c = "example_env case_backend"
  let ?tl = "json_value (lakehouses_api twin_backend)"
  let ?cl = "json_value (lakehouses_api case_backend)"
  have s1: "status_code (lakehouses_api twin_backend) = 200" by code_simp
  have s2: "status_code (lakehouses_api case_backend) = 200" by code_simp
  have q1: "status_code (lakehouses_api (fabric ?t ''ws'' ''token'')) = 200"
    using s1 by (simp only: fabric_example_env)
  have q2: "status_code (lakehouses_api (fabric ?c ''ws'' ''token'')) = 200"
    using s2 by (simp only: fabric_example_env)
  have f1: "first_at (\<lambda>lh. displayName lh = ''foo'') ?tl 1" by code_simp
  have n2: "''foo'' \<notin> set (map displayName ?cl)" by code_simp
  have h2: "\<forall>lh \<in> set ?cl. displayName lh \<noteq> ''foo''"
    by (simp add: case_backend_lakehouses lakehouse_item_def)
  have v1: "?tl ! 1 = lakehouse_item ''l1'' ''foo''" by code_simp
  have v2: "map displayName ?cl = [''Foo'', ''bar'']" by code_simp
  have v3: "(if status_code (sqlendpoints_api twin_backend) = 200
       then (case select_direct_path ascii_lower (json_value (sqlendpoints_api twin_backend))
                    ''foo'' of
               None \<Rightarrow>
                 (Inl (NoMatchingEndpoint ''foo''
                    (map displayName (json_value (sqlendpoints_api twin_backend)))),
                  [ListLakehouses, ListSqlEndpoints])
             | Some ep \<Rightarrow> (Inr (item_id ep), [ListLakehouses, ListSqlEndpoints]))
       else if status_code (items_api twin_backend) \<noteq> 200
       then (Inl (ItemsFailed (status_code (items_api twin_backend))
                    (body_text (items_api twin_backend))),
             [ListLakehouses, ListSqlEndpoints, ListItems])
       else (case select_items_path ascii_lower
                    (sql_endpoints_of_items (json_value (items_api twin_backend))) ''foo'' of
               None \<Rightarrow>
                 (Inl (NoMatchingEndpoint ''foo''
                    (map displayName
                       (sql_endpoints_of_items (json_value (items_api twin_backend))))),
                  [ListLakehouses, ListSqlEndpoints, ListItems])
             | Some ep \<Rightarrow> (Inr (item_id ep), [ListLakehouses, ListSqlEndpoints, ListItems]))) =
      (Inr ''e1'', [ListLakehouses, ListSqlEndpoints])"
    by code_simp
  note a = lakehouse_by_exact_name [OF q1 refl refl, where i = 1 and name = "''foo''",
      unfolded fabric_example_env str_lower_example_env, THEN conjunct1]
  note b = lakehouse_by_exact_name [OF q2 refl refl, where name = "''foo''",
      unfolded fabric_example_env str_lower_example_env, THEN conjunct2]
  from a f1 have c: "find_lakehouse ?tl ''foo'' = Inr (?tl ! 1) \<and>
      take 2 (snd (get_sql_endpoint_for_lakehouse ?t ''ws'' ''foo'' ''token'')) =
        [ListLakehouses, ListSqlEndpoints] \<and>
      (\<forall>avail. fst (get_sql_endpoint_for_lakehouse ?t ''ws'' ''foo'' ''token'') \<noteq>
         Inl (NotFound ''foo'' avail)) \<and>
      get_sql_endpoint_for_lakehouse ?t ''ws'' ''foo'' ''token'' =
      (if status_code (sqlendpoints_api twin_backend) = 200
       then (case select_direct_path ascii_lower (json_value (sqlendpoints_api twin_backend))
                    ''foo'' of
               None \<Rightarrow>
                 (Inl (NoMatchingEndpoint ''foo''
                    (map displayName (json_value (sqlendpoints_api twin_backend)))),
                  [ListLakehouses, ListSqlEndpoints])
             | Some ep \<Rightarrow> (Inr (item_id ep), [ListLakehouses, ListSqlEndpoints]))
       else if status_code (items_api twin_backend) \<noteq> 200
       then (Inl (ItemsFailed (status_code (items_api twin_backend))
                    (body_text (items_api twin_backend))),
             [ListLakehouses, ListSqlEndpoints, ListItems])
       else (case select_items_path ascii_lower
                    (sql_endpoints_of_items (json_value (items_api twin_backend))) ''foo'' of
               None \<Rightarrow>
                 (Inl (NoMatchingEndpoint ''foo''
                    (map displayName
                       (sql_endpoints_of_items (json_value (items_api twin_backend))))),
                  [ListLakehouses, ListSqlEndpoints, ListItems])
             | Some ep \<Rightarrow> (Inr (item_id ep), [ListLakehouses, ListSqlEndpoints, ListItems])))"
    by (rule mp)
  from c [THEN conjunct1] have c1: "find_lakehouse ?tl ''foo'' = Inr (lakehouse_item ''l1'' ''foo'')"
    by (simp only: v1)
  from c [THEN conjunct2, THEN conjunct2, THEN conjunct2]
  have c2: "get_sql_endpoint_for_lakehouse ?t ''ws'' ''foo'' ''token'' =
      (Inr ''e1'', [ListLakehouses, ListSqlEndpoints])"
    by (simp only: v3)
  from b h2 have d: "find_lakehouse ?cl ''foo'' = Inl (NotFound ''foo'' (map displayName ?cl)) \<and>
      get_sql_endpoint_for_lakehouse ?c ''ws'' ''foo'' ''token'' =
        (Inl (NotFound ''foo'' (map displayName ?cl)), [ListLakehouses])"
    by (rule mp)
  from d [THEN conjunct1] have d1: "find_lakehouse ?cl ''foo'' =
      Inl (NotFound ''foo'' [''Foo'', ''bar''])" by (simp only: v2)
  from d [THEN conjunct2] have d2: "get_sql_endpoint_for_lakehouse ?c ''ws'' ''foo'' ''token'' =
      (Inl (NotFound ''foo'' [''Foo'', ''bar'']), [ListLakehouses])" by (simp only: v2)
  from s1 f1 c1 c2 s2 n2 d1 d2 show ?thesis by (intro conjI)
qed

text \<open>
  C4. When the refresh POST answers 200 the run returns success straight away, and so
  it does when the POST answers 202 without a Location header (or with an empty one).
  In both cases the trace ends with the POST: no status request is issued.
\<close>

theorem immediate_success_without_polling:
  assumes res: "get_sql_endpoint_for_lakehouse e ws name (getToken e ''pbi'') = (Inr eid, evs)"
    and resp: "response = refresh_api (fabric e ws (getToken e ''pbi'')) eid"
  shows "(status_code response = 200 \<longrightarrow>
            refresh_sql_endpoint_and_wait e name ws mm = (Inr True, evs @ [RefreshMetadata eid])) \<and>
         (status_code response = 202 \<and> location response = None \<longrightarrow>
            refresh_sql_endpoint_and_wait e name ws mm = (Inr True, evs @ [RefreshMetadata eid])) \<and>
         (status_code response = 202 \<and> location response = Some [] \<longrightarrow>
            refresh_sql_endpoint_and_wait e name ws mm = (Inr True, evs @ [RefreshMetadata eid])) \<and>
         polls_made (evs @ [RefreshMetadata eid]) = 0"
proof (intro conjI impI)
  assume "status_code response = 200"
  then show "refresh_sql_endpoint_and_wait e name ws mm = (Inr True, evs @ [RefreshMetadata eid])"
    unfolding refresh_after_resolution [OF res] resp by (simp add: trigger_immediate)
next
  assume "status_code response = 202 \<and> location response = None"
  then show "refresh_sql_endpoint_and_wait e name ws mm = (Inr True, evs @ [RefreshMetadata eid])"
    unfolding refresh_after_resolution [OF res] resp by (simp add: trigger_immediate)
next
  assume "status_code response = 202 \<and> location response = Some []"
  then show "refresh_sql_endpoint_and_wait e name ws mm = (Inr True, evs @ [RefreshMetadata eid])"
    unfolding refresh_after_resolution [OF res] resp by (simp add: trigger_immediate)
next
  show "polls_made (evs @ [RefreshMetadata eid]) = 0" using res by (rule polls_made_resolved)
qed

theorem immediate_success_without_polling_witness:
  "get_sql_endpoint_for_lakehouse (example_env sync_backend) ''ws'' ''foo'' ''token'' =
     (Inr ''e1'', [ListLakehouses, ListSqlEndpoints]) \<and>
   status_code (refresh_api sync_backend ''e1'') = 200 \<and>
   refresh_sql_endpoint_and_wait (example_env sync_backend) ''foo'' ''ws'' 30 =
     (Inr True, [ListLakehouses, ListSqlEndpoints, RefreshMetadata ''e1'']) \<and>
   status_code (refresh_api blind_backend ''e1'') = 202 \<and>
   location (refresh_api blind_backend ''e1'') = None \<and>
   refresh_sql_endpoint_and_wait (example_env blind_backend) ''foo'' ''ws'' 30 =
     (Inr True, [ListLakehouses, ListSqlEndpoints, RefreshMetadata ''e1'']) \<and>
   location (refresh_api empty_location_backend ''e1'') = Some [] \<and>
   refresh_sql_endpoint_and_wait (example_env empty_location_backend) ''foo'' ''ws'' 30 =
     (Inr True, [ListLakehouses, ListSqlEndpoints, RefreshMetadata ''e1''])"
proof -
  let ?s = "example_env sync_backend" and ?b = "example_env blind_backend"
    and ?l = "example_env empty_location_backend"
  have r1: "get_sql_endpoint_for_lakehouse ?s ''ws'' ''foo'' (getToken ?s ''pbi'') =
      (Inr ''e1'', [ListLakehouses, ListSqlEndpoints])" by code_simp
  have r2: "get_sql_endpoint_for_lakehouse ?b ''ws'' ''foo'' (getToken ?b ''pbi'') =
      (Inr ''e1'', [ListLakehouses, ListSqlEndpoints])" by code_simp
  have r3: "get_sql_endpoint_for_lakehouse ?l ''ws'' ''foo'' (getToken ?l ''pbi'') =
      (Inr ''e1'', [ListLakehouses, ListSqlEndpoints])" by code_simp
  have r0: "get_sql_endpoint_for_lakehouse ?s ''ws'' ''foo'' ''token'' =
      (Inr ''e1'', [ListLakehouses, ListSqlEndpoints])" by code_simp
  have h1: "status_code (refresh_api sync_backend ''e1'') = 200" by code_simp
  have h2: "status_code (refresh_api blind_backend ''e1'') = 202" by code_simp
  have h3: "location (refresh_api blind_backend ''e1'') = None" by code_simp
  have h4: "status_code (refresh_api empty_location_backend ''e1'') = 202" by code_simp
  have h5: "location (refresh_api empty_location_backend ''e1'') = Some []" by code_simp
  note a1 = immediate_success_without_polling [OF r1 refl, where mm = 30,
      unfolded fabric_example_env str_lower_example_env, THEN conjunct1]
  note a2 = immediate_success_without_polling [OF r2 refl, where mm = 30,
      unfolded fabric_example_env str_lower_example_env, THEN conjunct2, THEN conjunct1]
  note a3 = immediate_success_without_polling [OF r3 refl, where mm = 30,
      unfolded fabric_example_env str_lower_example_env, THEN conjunct2, THEN conjunct2, THEN conjunct1]
  from a1 h1 have "refresh_sql_endpoint_and_wait ?s ''foo'' ''ws'' 30 =
      (Inr True, [ListLakehouses, ListSqlEndpoints] @ [RefreshMetadata ''e1''])"
    by (rule mp)
  then have c1: "refresh_sql_endpoint_and_wait ?s ''foo'' ''ws'' 30 =
      (Inr True, [ListLakehouses, ListSqlEndpoints, RefreshMetadata ''e1''])" by simp
  from h2 h3 have "status_code (refresh_api blind_backend ''e1'') = 202 \<and>
      location (refresh_api blind_backend ''e1'') = None" by (rule conjI)
  with a2 have "refresh_sql_endpoint_and_wait ?b ''foo'' ''ws'' 30 =
      (Inr True, [ListLakehouses, ListSqlEndpoints] @ [RefreshMetadata ''e1''])"
    by (rule mp)
  then have c2: "refresh_sql_endpoint_and_wait ?b ''foo'' ''ws'' 30 =
      (Inr True, [ListLakehouses, ListSqlEndpoints, RefreshMetadata ''e1''])" by simp
  from h4 h5 have "status_code (refresh_api empty_location_backend ''e1'') = 202 \<and>
      location (refresh_api empty_location_backend ''e1'') = Some []" by (rule conjI)
  with a3 have "refresh_sql_endpoint_and_wait ?l ''foo'' ''ws'' 30 =
      (Inr True, [ListLakehouses, ListSqlEndpoints] @ [RefreshMetadata ''e1''])"
    by (rule mp)
  then have c3: "refresh_sql_endpoint_and_wait ?l ''foo'' ''ws'' 30 =
      (Inr True, [ListLakehouses, ListSqlEndpoints, RefreshMetadata ''e1''])" by simp
  from r0 h1 c1 h2 h3 c2 h5 c3 show ?thesis by (intro conjI)
qed

text \<open>
  C5. A refresh POST answering neither 200 nor 202 fails the run with \<open>TriggerFailed\<close>,
  and a status poll answering neither 200 nor 202 fails it with \<open>PollFailed\<close>; both
  errors carry the status code and the body text of the offending response. The trace
  ends with that request: the POST is not repeated, and the failing poll is the last of
  \<open>n + 1\<close> polls when \<open>n\<close> polls answered 202 before it.
\<close>

theorem unexpected_status_is_fatal:
  assumes res: "get_sql_endpoint_for_lakehouse e ws name (getToken e ''pbi'') = (Inr eid, evs)"
    and b: "b = fabric e ws (getToken e ''pbi'')"
    and resp: "response = refresh_api b eid"
    and poll: "status_response = status_api b status_url n"
  shows "(status_code response \<noteq> 200 \<and> status_code response \<noteq> 202 \<longrightarrow>
            refresh_sql_endpoint_and_wait e name ws mm =
              (Inl (TriggerFailed (status_code response) (body_text response)),
               evs @ [RefreshMetadata eid])) \<and>
         (refresh_accepted b eid status_url \<and>
          (\<forall>i<n. status_code (status_api b status_url i) = 202) \<and>
          pending_elapsed b n < mm * 60 \<and>
          status_code status_response \<noteq> 200 \<and> status_code status_response \<noteq> 202 \<longrightarrow>
            refresh_sql_endpoint_and_wait e name ws mm =
              (Inl (PollFailed (status_code status_response) (body_text status_response)),
               evs @ [RefreshMetadata eid] @ pending_trace status_url n @ [GetStatus status_url]) \<and>
            polls_made (snd (refresh_sql_endpoint_and_wait e name ws mm)) = n + 1)"
proof (intro conjI impI)
  assume "status_code response \<noteq> 200 \<and> status_code response \<noteq> 202"
  then show "refresh_sql_endpoint_and_wait e name ws mm =
              (Inl (TriggerFailed (status_code response) (body_text response)),
               evs @ [RefreshMetadata eid])"
    unfolding refresh_after_resolution [OF res] resp b by (simp add: trigger_failed)
next
  assume a: "refresh_accepted b eid status_url \<and>
          (\<forall>i<n. status_code (status_api b status_url i) = 202) \<and>
          pending_elapsed b n < mm * 60 \<and>
          status_code status_response \<noteq> 200 \<and> status_code status_response \<noteq> 202"
  then have acc: "refresh_accepted b eid status_url"
    and pend: "\<forall>i<n. status_code (status_api b status_url i) = 202"
    and last: "pending_elapsed b n < mm * 60"
    and bad: "status_code (status_api b status_url n) \<noteq> 200"
      "status_code (status_api b status_url n) \<noteq> 202"
    unfolding poll by simp_all
  from last have time: "\<forall>i<n. pending_elapsed b i < mm * 60" by (rule pending_elapsed_before)
  have r: "refresh_sql_endpoint_and_wait e name ws mm =
              (Inl (PollFailed (status_code status_response) (body_text status_response)),
               evs @ [RefreshMetadata eid] @ pending_trace status_url n @ [GetStatus status_url])"
    unfolding refresh_after_resolution [OF res] poll
    using run_fails_after [OF acc pend time last bad] by (simp only: b)
  then show "refresh_sql_endpoint_and_wait e name ws mm =
              (Inl (PollFailed (status_code status_response) (body_text status_response)),
               evs @ [RefreshMetadata eid] @ pending_trace status_url n @ [GetStatus status_url])" .
  have "polls_made ((evs @ [RefreshMetadata eid]) @ pending_trace status_url n) = n"
    unfolding polls_made_pending using polls_made_resolved [OF res] by simp
  then have "polls_made (evs @ [RefreshMetadata eid] @ pending_trace status_url n @
      [GetStatus status_url]) = n + 1"
    by (simp add: polls_made_def)
  then show "polls_made (snd (refresh_sql_endpoint_and_wait e name ws mm)) = n + 1"
    unfolding r by simp
qed

theorem unexpected_status_is_fatal_witness:
  "status_code (refresh_api denied_backend ''e1'') = 403 \<and>
   refresh_sql_endpoint_and_wait (example_env denied_backend) ''foo'' ''ws'' 30 =
     (Inl (TriggerFailed 403 ''forbidden''),
      [ListLakehouses, ListSqlEndpoints, RefreshMetadata ''e1'']) \<and>
   refresh_accepted broken_poll_backend ''e1'' ''https://status/op1'' \<and>
   status_code (status_api broken_poll_backend ''https://status/op1'' 0) = 202 \<and>
   status_code (status_api broken_poll_backend ''https://status/op1'' 1) = 202 \<and>
   status_code (status_api broken_poll_backend ''https://status/op1'' 2) = 500 \<and>
   refresh_sql_endpoint_and_wait (example_env broken_poll_backend) ''foo'' ''ws'' 30 =
     (Inl (PollFailed 500 ''boom''),
      [ListLakehouses, ListSqlEndpoints, RefreshMetadata ''e1'',
       GetStatus ''https://status/op1'', Sleep 30,
       GetStatus ''https://status/op1'', Sleep 30,
       GetStatus ''https://status/op1'']) \<and>
   polls_made (snd (refresh_sql_endpoint_and_wait (example_env broken_poll_backend) ''foo''
                      ''ws'' 30)) = 3"
proof -
  let ?d = "example_env denied_backend" and ?p = "example_env broken_poll_backend"
  let ?u = "''https://status/op1''"
  have r1: "get_sql_endpoint_for_lakehouse ?d ''ws'' ''foo'' (getToken ?d ''pbi'') =
      (Inr ''e1'', [ListLakehouses, ListSqlEndpoints])" by code_simp
  have r2: "get_sql_endpoint_for_lakehouse ?p ''ws'' ''foo'' (getToken ?p ''pbi'') =
      (Inr ''e1'', [ListLakehouses, ListSqlEndpoints])" by code_simp
  have h1: "status_code (refresh_api denied_backend ''e1'') = 403" by code_simp
  have t1: "body_text (refresh_api denied_backend ''e1'') = ''forbidden''" by code_simp
  have acc: "refresh_accepted broken_poll_backend ''e1'' ?u" by code_simp
  have s0: "status_code (status_api broken_poll_backend ?u 0) = 202" by code_simp
  have s1: "status_code (status_api broken_poll_backend ?u 1) = 202" by code_simp
  have s2: "status_code (status_api broken_poll_backend ?u 2) = 500" by code_simp
  have t2: "body_text (status_api broken_poll_backend ?u 2) = ''boom''" by code_simp
  have pend: "\<forall>i<2. status_code (status_api broken_poll_backend ?u i) = 202"
    by (simp add: broken_poll_backend_def job_backend_sel reply_def)
  have time: "pending_elapsed broken_poll_backend 2 < 30 * 60"
    by (simp add: broken_poll_backend_def pending_elapsed_job)
  have pt: "pending_trace ?u 2 = [GetStatus ?u, Sleep 30, GetStatus ?u, Sleep 30]"
    by (simp add: numeral_2_eq_2)
  note a1 = unexpected_status_is_fatal [OF r1 refl refl refl, where mm = 30,
      unfolded fabric_example_env str_lower_example_env, THEN conjunct1]
  note a2 = unexpected_status_is_fatal [OF r2 refl refl refl, where mm = 30 and n = 2
      and status_url = ?u, unfolded fabric_example_env str_lower_example_env, THEN conjunct2]
  from h1 have "status_code (refresh_api denied_backend ''e1'') \<noteq> 200 \<and>
      status_code (refresh_api denied_backend ''e1'') \<noteq> 202" by simp
  with a1 have "refresh_sql_endpoint_and_wait ?d ''foo'' ''ws'' 30 =
      (Inl (TriggerFailed (status_code (refresh_api denied_backend ''e1''))
             (body_text (refresh_api denied_backend ''e1''))),
       [ListLakehouses, ListSqlEndpoints] @ [RefreshMetadata ''e1''])"
    by (rule mp)
  then have c1: "refresh_sql_endpoint_and_wait ?d ''foo'' ''ws'' 30 =
      (Inl (TriggerFailed 403 ''forbidden''),
       [ListLakehouses, ListSqlEndpoints, RefreshMetadata ''e1''])"
    by (simp add: h1 t1)
  from s2 have bad: "status_code (status_api broken_poll_backend ?u 2) \<noteq> 200"
    "status_code (status_api broken_poll_backend ?u 2) \<noteq> 202" by simp_all
  from acc pend time bad have "refresh_accepted broken_poll_backend ''e1'' ?u \<and>
      (\<forall>i<2. status_code (status_api broken_poll_backend ?u i) = 202) \<and>
      pending_elapsed broken_poll_backend 2 < 30 * 60 \<and>
      status_code (status_api broken_poll_backend ?u 2) \<noteq> 200 \<and>
      status_code (status_api broken_poll_backend ?u 2) \<noteq> 202"
    by (intro conjI)
  with a2 have c: "refresh_sql_endpoint_and_wait ?p ''foo'' ''ws'' 30 =
      (Inl (PollFailed (status_code (status_api broken_poll_backend ?u 2))
             (body_text (status_api broken_poll_backend ?u 2))),
       [ListLakehouses, ListSqlEndpoints] @ [RefreshMetadata ''e1''] @ pending_trace ?u 2 @
       [GetStatus ?u]) \<and>
      polls_made (snd (refresh_sql_endpoint_and_wait ?p ''foo'' ''ws'' 30)) = 2 + 1"
    by (rule mp)
  from c [THEN conjunct1] have c2: "refresh_sql_endpoint_and_wait ?p ''foo'' ''ws'' 30 =
      (Inl (PollFailed 500 ''boom''),
       [ListLakehouses, ListSqlEndpoints, RefreshMetadata ''e1'',
        GetStatus ?u, Sleep 30, GetStatus ?u, Sleep 30, GetStatus ?u])"
    by (simp add: s2 t2 pt)
  from c [THEN conjunct2] have c3: "polls_made (snd (refresh_sql_endpoint_and_wait ?p ''foo'' ''ws'' 30)) = 3"
    by simp
  from h1 c1 acc s0 s1 s2 c2 c3 show ?thesis by (intro conjI)
qed

text \<open>
  C6 (as the script behaves). A resolution that reaches the endpoint search returns the
  id of exactly one endpoint or fails. With no plausible match it fails with
  \<open>NoMatchingEndpoint\<close>. With one or more plausible matches it does not fail: it returns
  the first match in listing order, on the direct path under the containment rule, on the
  items path under the marker rule and, when no endpoint satisfies that, under the
  equality rule. A match is plausible by the rules of the script, which compare the
  names as lowered by \<^verbatim>\<open>str.lower()\<close>.
\<close>

theorem first_match_or_failure:
  assumes r: "r = fst (get_sql_endpoint_for_lakehouse e ws name tok)"
    and d: "deps = json_value (sqlendpoints_api (fabric e ws tok))"
    and i: "ieps = sql_endpoints_of_items (json_value (items_api (fabric e ws tok)))"
  shows "(on_direct_path (fabric e ws tok) name \<and> (\<exists>ep \<in> set deps. relaxed_match (str_lower e) name ep) \<longrightarrow>
            (\<exists>k. first_at (relaxed_match (str_lower e) name) deps k \<and> r = Inr (item_id (deps ! k)))) \<and>
         (on_direct_path (fabric e ws tok) name \<and> \<not> (\<exists>ep \<in> set deps. relaxed_match (str_lower e) name ep) \<longrightarrow>
            r = Inl (NoMatchingEndpoint name (map displayName deps))) \<and>
         (on_items_path (fabric e ws tok) name \<and>
          (\<exists>ep \<in> set ieps. marker_match (str_lower e) name ep \<or> exact_match (str_lower e) name ep) \<longrightarrow>
            (\<exists>k. (first_at (marker_match (str_lower e) name) ieps k \<or>
                  (\<forall>ep \<in> set ieps. \<not> marker_match (str_lower e) name ep) \<and>
                  first_at (exact_match (str_lower e) name) ieps k) \<and>
                 r = Inr (item_id (ieps ! k)))) \<and>
         (on_items_path (fabric e ws tok) name \<and>
          \<not> (\<exists>ep \<in> set ieps. marker_match (str_lower e) name ep \<or> exact_match (str_lower e) name ep) \<longrightarrow>
            r = Inl (NoMatchingEndpoint name (map displayName ieps)))"
proof (intro conjI impI)
  assume a: "on_direct_path (fabric e ws tok) name \<and> (\<exists>ep \<in> set deps. relaxed_match (str_lower e) name ep)"
  then have p: "on_direct_path (fabric e ws tok) name" by (rule conjunct1)
  from a have ex: "\<exists>ep \<in> set deps. relaxed_match (str_lower e) name ep" by (rule conjunct2)
  from find_some_first_at [OF ex] obtain k where k: "first_at (relaxed_match (str_lower e) name) deps k"
    and f: "find (relaxed_match (str_lower e) name) deps = Some (deps ! k)"
    by (elim exE conjE)
  from f have "r = Inr (item_id (deps ! k))"
    unfolding r resolve_direct_fst [OF p] d select_direct_path_def by simp
  with k show "\<exists>k. first_at (relaxed_match (str_lower e) name) deps k \<and> r = Inr (item_id (deps ! k))"
    by blast
next
  assume a: "on_direct_path (fabric e ws tok) name \<and> \<not> (\<exists>ep \<in> set deps. relaxed_match (str_lower e) name ep)"
  then have p: "on_direct_path (fabric e ws tok) name" by (rule conjunct1)
  from a have "find (relaxed_match (str_lower e) name) deps = None" unfolding find_None_iff by blast
  then show "r = Inl (NoMatchingEndpoint name (map displayName deps))"
    unfolding r resolve_direct_fst [OF p] d select_direct_path_def by simp
next
  assume a: "on_items_path (fabric e ws tok) name \<and>
          (\<exists>ep \<in> set ieps. marker_match (str_lower e) name ep \<or> exact_match (str_lower e) name ep)"
  then have p: "on_items_path (fabric e ws tok) name" by (rule conjunct1)
  from a have ex: "\<exists>ep \<in> set ieps. marker_match (str_lower e) name ep \<or> exact_match (str_lower e) name ep"
    by (rule conjunct2)
  from select_items_cases [OF ex] obtain k where
    k: "first_at (marker_match (str_lower e) name) ieps k \<or>
        (\<forall>ep \<in> set ieps. \<not> marker_match (str_lower e) name ep) \<and> first_at (exact_match (str_lower e) name) ieps k"
    and s: "select_items_path (str_lower e) ieps name = Some (ieps ! k)"
    by (elim exE conjE)
  from s have "r = Inr (item_id (ieps ! k))"
    unfolding r resolve_items_fst [OF p] i by simp
  with k show "\<exists>k. (first_at (marker_match (str_lower e) name) ieps k \<or>
                  (\<forall>ep \<in> set ieps. \<not> marker_match (str_lower e) name ep) \<and>
                  first_at (exact_match (str_lower e) name) ieps k) \<and>
                 r = Inr (item_id (ieps ! k))"
    by blast
next
  assume a: "on_items_path (fabric e ws tok) name \<and>
          \<not> (\<exists>ep \<in> set ieps. marker_match (str_lower e) name ep \<or> exact_match (str_lower e) name ep)"
  then have p: "on_items_path (fabric e ws tok) name" by (rule conjunct1)
  from a have "\<forall>ep \<in> set ieps. \<not> marker_match (str_lower e) name ep \<and> \<not> exact_match (str_lower e) name ep" by blast
  then have "select_items_path (str_lower e) ieps name = None" by (rule select_items_none)
  then show "r = Inl (NoMatchingEndpoint name (map displayName ieps))"
    unfolding r resolve_items_fst [OF p] i by simp
qed

theorem first_match_or_failure_witness:
  "on_direct_path direct_backend ''foo'' \<and>
   (\<exists>ep \<in> set (json_value (sqlendpoints_api direct_backend)). relaxed_match ascii_lower ''foo'' ep) \<and>
   (\<exists>k. first_at (relaxed_match ascii_lower ''foo'') (json_value (sqlendpoints_api direct_backend)) k \<and>
        fst (get_sql_endpoint_for_lakehouse (example_env direct_backend) ''ws'' ''foo'' ''token'') =
          Inr (item_id (json_value (sqlendpoints_api direct_backend) ! k))) \<and>
   on_direct_path direct_backend ''baz'' \<and>
   \<not> (\<exists>ep \<in> set (json_value (sqlendpoints_api direct_backend)). relaxed_match ascii_lower ''baz'' ep) \<and>
   fst (get_sql_endpoint_for_lakehouse (example_env direct_backend) ''ws'' ''baz'' ''token'') =
     Inl (NoMatchingEndpoint ''baz'' [''bar'', ''My Foo data'', ''foo'']) \<and>
   on_items_path same_items_backend ''foo'' \<and>
   (\<exists>k. (first_at (marker_match ascii_lower ''foo'')
           (sql_endpoints_of_items (json_value (items_api same_items_backend))) k \<or>
         \<not> (\<exists>ep \<in> set (sql_endpoints_of_items (json_value (items_api same_items_backend))).
              marker_match ascii_lower ''foo'' ep) \<and>
         first_at (exact_match ascii_lower ''foo'')
           (sql_endpoints_of_items (json_value (items_api same_items_backend))) k) \<and>
        fst (get_sql_endpoint_for_lakehouse (example_env same_items_backend) ''ws'' ''foo''
               ''token'') =
          Inr (item_id (sql_endpoints_of_items (json_value (items_api same_items_backend)) ! k))) \<and>
   on_items_path same_items_backend ''baz'' \<and>
   fst (get_sql_endpoint_for_lakehouse (example_env same_items_backend) ''ws'' ''baz'' ''token'') =
     Inl (NoMatchingEndpoint ''baz'' [''bar'', ''My Foo data'', ''foo''])"
proof -
  let ?d = "example_env direct_backend" and ?i = "example_env same_items_backend"
  let ?deps = "json_value (sqlendpoints_api direct_backend)"
  let ?ieps = "sql_endpoints_of_items (json_value (items_api same_items_backend))"
  have p1: "on_direct_path direct_backend ''foo''" by code_simp
  have p2: "on_direct_path direct_backend ''baz''" by code_simp
  have p3: "on_items_path same_items_backend ''foo''" by code_simp
  have p4: "on_items_path same_items_backend ''baz''" by code_simp
  have m1: "\<exists>ep \<in> set ?deps. relaxed_match ascii_lower ''foo'' ep" by code_simp
  have m2: "\<not> (\<exists>ep \<in> set ?deps. relaxed_match ascii_lower ''baz'' ep)" by code_simp
  have m3: "\<exists>ep \<in> set ?ieps. marker_match ascii_lower ''foo'' ep \<or> exact_match ascii_lower ''foo'' ep" by code_simp
  have m4: "\<not> (\<exists>ep \<in> set ?ieps. marker_match ascii_lower ''baz'' ep \<or> exact_match ascii_lower ''baz'' ep)" by code_simp
  have v2: "map displayName ?deps = [''bar'', ''My Foo data'', ''foo'']" by code_simp
  have v4: "map displayName ?ieps = [''bar'', ''My Foo data'', ''foo'']" by code_simp
  note a = first_match_or_failure [of _ ?d "''ws''" _ "''token''", OF refl refl refl,
      unfolded fabric_example_env str_lower_example_env]
  note b = first_match_or_failure [of _ ?i "''ws''" _ "''token''", OF refl refl refl,
      unfolded fabric_example_env str_lower_example_env]
  from p1 m1 have h1: "on_direct_path direct_backend ''foo'' \<and> (\<exists>ep \<in> set ?deps. relaxed_match ascii_lower ''foo'' ep)"
    by (rule conjI)
  from p2 m2 have h2: "on_direct_path direct_backend ''baz'' \<and>
      \<not> (\<exists>ep \<in> set ?deps. relaxed_match ascii_lower ''baz'' ep)"
    by (rule conjI)
  from p3 m3 have h3: "on_items_path same_items_backend ''foo'' \<and>
      (\<exists>ep \<in> set ?ieps. marker_match ascii_lower ''foo'' ep \<or> exact_match ascii_lower ''foo'' ep)"
    by (rule conjI)
  from p4 m4 have h4: "on_items_path same_items_backend ''baz'' \<and>
      \<not> (\<exists>ep \<in> set ?ieps. marker_match ascii_lower ''baz'' ep \<or> exact_match ascii_lower ''baz'' ep)"
    by (rule conjI)
  have c1: "\<exists>k. first_at (relaxed_match ascii_lower ''foo'') ?deps k \<and>
        fst (get_sql_endpoint_for_lakehouse ?d ''ws'' ''foo'' ''token'') = Inr (item_id (?deps ! k))"
    using a [where name = "''foo''", THEN conjunct1] h1 by (rule mp)
  have "fst (get_sql_endpoint_for_lakehouse ?d ''ws'' ''baz'' ''token'') =
      Inl (NoMatchingEndpoint ''baz'' (map displayName ?deps))"
    using a [where name = "''baz''", THEN conjunct2, THEN conjunct1] h2 by (rule mp)
  then have c2: "fst (get_sql_endpoint_for_lakehouse ?d ''ws'' ''baz'' ''token'') =
      Inl (NoMatchingEndpoint ''baz'' [''bar'', ''My Foo data'', ''foo''])"
    by (simp only: v2)
  have "\<exists>k. (first_at (marker_match ascii_lower ''foo'') ?ieps k \<or>
         (\<forall>ep \<in> set ?ieps. \<not> marker_match ascii_lower ''foo'' ep) \<and> first_at (exact_match ascii_lower ''foo'') ?ieps k) \<and>
        fst (get_sql_endpoint_for_lakehouse ?i ''ws'' ''foo'' ''token'') = Inr (item_id (?ieps ! k))"
    using b [where name = "''foo''", THEN conjunct2, THEN conjunct2, THEN conjunct1] h3 by (rule mp)
  then have c3: "\<exists>k. (first_at (marker_match ascii_lower ''foo'') ?ieps k \<or>
         \<not> (\<exists>ep \<in> set ?ieps. marker_match ascii_lower ''foo'' ep) \<and> first_at (exact_match ascii_lower ''foo'') ?ieps k) \<and>
        fst (get_sql_endpoint_for_lakehouse ?i ''ws'' ''foo'' ''token'') = Inr (item_id (?ieps ! k))"
    by (simp only: bex_simps)
  have "fst (get_sql_endpoint_for_lakehouse ?i ''ws'' ''baz'' ''token'') =
      Inl (NoMatchingEndpoint ''baz'' (map displayName ?ieps))"
    using b [where name = "''baz''", THEN conjunct2, THEN conjunct2, THEN conjunct2] h4 by (rule mp)
  then have c4: "fst (get_sql_endpoint_for_lakehouse ?i ''ws'' ''baz'' ''token'') =
      Inl (NoMatchingEndpoint ''baz'' [''bar'', ''My Foo data'', ''foo''])"
    by (simp only: v4)
  from p1 m1 c1 p2 m2 c2 p3 c3 p4 c4 show ?thesis by (intro conjI)
qed

text \<open>
  C6 as stated does not hold: with two plausible matches the resolution succeeds, on
  either path, with the first of them.
\<close>

theorem ties_resolved_not_failed:
  "on_direct_path direct_backend ''foo'' \<and>
   length (filter (relaxed_match ascii_lower ''foo'') (json_value (sqlendpoints_api direct_backend))) = 2 \<and>
   fst (get_sql_endpoint_for_lakehouse (example_env direct_backend) ''ws'' ''foo'' ''token'') =
     Inr ''e2'' \<and>
   on_items_path foo_items_backend ''foo'' \<and>
   length (filter (plausible_item ascii_lower ''foo'')
     (sql_endpoints_of_items (json_value (items_api foo_items_backend)))) = 2 \<and>
   fst (get_sql_endpoint_for_lakehouse (example_env foo_items_backend) ''ws'' ''foo'' ''token'') =
     Inr ''e1''"
proof (intro conjI)
  show "on_direct_path direct_backend ''foo''" by code_simp
  show "length (filter (relaxed_match ascii_lower ''foo'') (json_value (sqlendpoints_api direct_backend))) = 2"
    by code_simp
  show "fst (get_sql_endpoint_for_lakehouse (example_env direct_backend) ''ws'' ''foo'' ''token'') =
     Inr ''e2''" by code_simp
  show "on_items_path foo_items_backend ''foo''" by code_simp
  show "length (filter (plausible_item ascii_lower ''foo'')
     (sql_endpoints_of_items (json_value (items_api foo_items_backend)))) = 2"
    unfolding plausible_item_def by code_simp
  show "fst (get_sql_endpoint_for_lakehouse (example_env foo_items_backend) ''ws'' ''foo'' ''token'') =
     Inr ''e1''" by code_simp
qed

text \<open>
  C7 (as the script behaves). On the direct path (the direct endpoint listing answered
  200) an endpoint is eligible as soon as its display name, lowered by
  \<^verbatim>\<open>str.lower()\<close>, contains the lowered requested name; no marker token is required.
  The first eligible endpoint in listing order is selected. Trying equality of the
  lowered names after that, as the specification words it, selects the same endpoint as
  the single loop of the script.
\<close>

theorem direct_path_relaxed_rule:
  assumes path: "on_direct_path (fabric e ws tok) name"
    and eps: "eps = json_value (sqlendpoints_api (fabric e ws tok))"
    and r: "r = fst (get_sql_endpoint_for_lakehouse e ws name tok)"
  shows "(first_at (contains_name (str_lower e) name) eps i \<longrightarrow> r = Inr (item_id (eps ! i))) \<and>
         ((\<forall>ep \<in> set eps. \<not> contains_name (str_lower e) name ep) \<longrightarrow>
            r = Inl (NoMatchingEndpoint name (map displayName eps))) \<and>
         select_direct_path (str_lower e) eps name = relaxed_then_exact (str_lower e) eps name \<and>
         r = (case relaxed_then_exact (str_lower e) eps name of
                None \<Rightarrow> Inl (NoMatchingEndpoint name (map displayName eps))
              | Some ep \<Rightarrow> Inr (item_id ep)) \<and>
         (contains_name (str_lower e) name ep \<longleftrightarrow>
            (\<exists>pre post. str_lower e (displayName ep) = pre @ str_lower e name @ post))"
proof (intro conjI impI)
  assume "first_at (contains_name (str_lower e) name) eps i"
  then have "select_direct_path (str_lower e) eps name = Some (eps ! i)"
    by (simp add: select_direct_path_def relaxed_match_eq first_at_find)
  then show "r = Inr (item_id (eps ! i))"
    unfolding r resolve_direct_path [OF path] eps by simp
next
  assume "\<forall>ep \<in> set eps. \<not> contains_name (str_lower e) name ep"
  then have "find (contains_name (str_lower e) name) eps = None" unfolding find_None_iff by blast
  then have "select_direct_path (str_lower e) eps name = None"
    by (simp add: select_direct_path_def relaxed_match_eq)
  then show "r = Inl (NoMatchingEndpoint name (map displayName eps))"
    unfolding r resolve_direct_path [OF path] eps by simp
next
  show "select_direct_path (str_lower e) eps name = relaxed_then_exact (str_lower e) eps name" by (rule select_direct_spec)
next
  have "r = (case select_direct_path (str_lower e) eps name of
                None \<Rightarrow> Inl (NoMatchingEndpoint name (map displayName eps))
              | Some ep \<Rightarrow> Inr (item_id ep))"
    unfolding r resolve_direct_path [OF path] eps by (simp split: option.split)
  then show "r = (case relaxed_then_exact (str_lower e) eps name of
                None \<Rightarrow> Inl (NoMatchingEndpoint name (map displayName eps))
              | Some ep \<Rightarrow> Inr (item_id ep))"
    by (simp only: select_direct_spec)
next
  show "contains_name (str_lower e) name ep \<longleftrightarrow> (\<exists>pre post. str_lower e (displayName ep) = pre @ str_lower e name @ post)"
    by (rule contains_name_iff)
qed

theorem direct_path_relaxed_rule_witness:
  "on_direct_path direct_backend ''foo'' \<and>
   first_at (contains_name ascii_lower ''foo'') (json_value (sqlendpoints_api direct_backend)) 1 \<and>
   \<not> has_marker ascii_lower (json_value (sqlendpoints_api direct_backend) ! 1) \<and>
   fst (get_sql_endpoint_for_lakehouse (example_env direct_backend) ''ws'' ''foo'' ''token'') =
     Inr ''e2'' \<and>
   on_direct_path direct_backend ''baz'' \<and>
   fst (get_sql_endpoint_for_lakehouse (example_env direct_backend) ''ws'' ''baz'' ''token'') =
     Inl (NoMatchingEndpoint ''baz'' [''bar'', ''My Foo data'', ''foo''])"
proof -
  let ?e = "example_env direct_backend"
  let ?eps = "json_value (sqlendpoints_api direct_backend)"
  have p1: "on_direct_path direct_backend ''foo''" by code_simp
  have p2: "on_direct_path direct_backend ''baz''" by code_simp
  have f1: "first_at (contains_name ascii_lower ''foo'') ?eps 1" by code_simp
  have m1: "\<not> has_marker ascii_lower (?eps ! 1)" by code_simp
  have n2: "\<not> (\<exists>ep \<in> set ?eps. contains_name ascii_lower ''baz'' ep)" by code_simp
  have v1: "item_id (?eps ! 1) = ''e2''" by code_simp
  have v2: "map displayName ?eps = [''bar'', ''My Foo data'', ''foo'']" by code_simp
  have q1: "on_direct_path (fabric ?e ''ws'' ''token'') ''foo''"
    using p1 by (simp only: fabric_example_env str_lower_example_env)
  have q2: "on_direct_path (fabric ?e ''ws'' ''token'') ''baz''"
    using p2 by (simp only: fabric_example_env str_lower_example_env)
  note a1 = direct_path_relaxed_rule [OF q1 refl refl, where i = 1, THEN conjunct1]
  note a2 = direct_path_relaxed_rule [OF q2 refl refl, THEN conjunct2, THEN conjunct1]
  have t1: "first_at (contains_name ascii_lower ''foo'') ?eps 1 \<longrightarrow>
      fst (get_sql_endpoint_for_lakehouse ?e ''ws'' ''foo'' ''token'') = Inr (item_id (?eps ! 1))"
    using a1 by (simp only: fabric_example_env str_lower_example_env)
  have t2: "(\<forall>ep \<in> set ?eps. \<not> contains_name ascii_lower ''baz'' ep) \<longrightarrow>
      fst (get_sql_endpoint_for_lakehouse ?e ''ws'' ''baz'' ''token'') =
        Inl (NoMatchingEndpoint ''baz'' (map displayName ?eps))"
    using a2 by (simp only: fabric_example_env str_lower_example_env)
  from t1 f1 have c1: "fst (get_sql_endpoint_for_lakehouse ?e ''ws'' ''foo'' ''token'') = Inr ''e2''"
    by (simp only: v1 simp_thms)
  from n2 have "\<forall>ep \<in> set ?eps. \<not> contains_name ascii_lower ''baz'' ep" by blast
  with t2 have c2: "fst (get_sql_endpoint_for_lakehouse ?e ''ws'' ''baz'' ''token'') =
      Inl (NoMatchingEndpoint ''baz'' [''bar'', ''My Foo data'', ''foo''])"
    by (simp only: v2 simp_thms)
  from p1 f1 m1 c1 p2 c2 show ?thesis by (intro conjI)
qed

text \<open>
  C7 as stated does not hold: the requested name is a substring of the display name
  below, letter for letter, yet the endpoint is not eligible, for the reason given
  under C1.
\<close>

theorem literal_substring_not_eligible:
  "on_direct_path greek_direct_backend alpha_sigma \<and>
   json_value (sqlendpoints_api greek_direct_backend) =
     [endpoint_item ''e1'' alpha_sigma_alpha_endpoint] \<and>
   py_in alpha_sigma alpha_sigma_alpha_endpoint \<and>
   fst (get_sql_endpoint_for_lakehouse (greek_env greek_direct_backend) ''ws'' alpha_sigma
          ''token'') =
     Inl (NoMatchingEndpoint alpha_sigma [alpha_sigma_alpha_endpoint])"
proof (intro conjI)
  show "on_direct_path greek_direct_backend alpha_sigma" by code_simp
  show "json_value (sqlendpoints_api greek_direct_backend) =
     [endpoint_item ''e1'' alpha_sigma_alpha_endpoint]" by code_simp
  show "py_in alpha_sigma alpha_sigma_alpha_endpoint" by code_simp
  show "fst (get_sql_endpoint_for_lakehouse (greek_env greek_direct_backend) ''ws'' alpha_sigma
          ''token'') =
     Inl (NoMatchingEndpoint alpha_sigma [alpha_sigma_alpha_endpoint])" by code_simp
qed

text \<open>
  C8. A direct endpoint listing that does not answer 200 is not an error of the
  resolution: the script goes on to request the generic items listing of the workspace
  (three requests in all), keeps the items whose \<open>type\<close> is \<open>SQLEndpoint\<close>, and applies
  the name-match heuristic of the items path to exactly those; an endpoint id it
  returns is the id of an item of that type.
\<close>

theorem direct_failure_falls_back:
  assumes res: "lakehouse_resolved (fabric e ws tok) name"
    and direct: "status_code (sqlendpoints_api (fabric e ws tok)) \<noteq> 200"
    and items: "items = json_value (items_api (fabric e ws tok))"
  shows "snd (get_sql_endpoint_for_lakehouse e ws name tok) =
           [ListLakehouses, ListSqlEndpoints, ListItems] \<and>
         (status_code (items_api (fabric e ws tok)) = 200 \<longrightarrow>
            fst (get_sql_endpoint_for_lakehouse e ws name tok) =
              (case select_items_path (str_lower e) (sql_endpoints_of_items items) name of
                 None \<Rightarrow> Inl (NoMatchingEndpoint name
                            (map displayName (sql_endpoints_of_items items)))
               | Some ep \<Rightarrow> Inr (item_id ep))) \<and>
         set (sql_endpoints_of_items items) =
           {it \<in> set items. item_type it = Some ''SQLEndpoint''} \<and>
         (status_code (items_api (fabric e ws tok)) = 200 \<and>
          fst (get_sql_endpoint_for_lakehouse e ws name tok) = Inr eid \<longrightarrow>
            (\<exists>ep \<in> set items. item_type ep = Some ''SQLEndpoint'' \<and> item_id ep = eid))"
proof (intro conjI impI)
  show "snd (get_sql_endpoint_for_lakehouse e ws name tok) =
           [ListLakehouses, ListSqlEndpoints, ListItems]"
    using res direct by (rule resolve_fallback_trace)
next
  assume "status_code (items_api (fabric e ws tok)) = 200"
  with res direct have "on_items_path (fabric e ws tok) name" by (simp add: on_items_path_def)
  then show "fst (get_sql_endpoint_for_lakehouse e ws name tok) =
              (case select_items_path (str_lower e) (sql_endpoints_of_items items) name of
                 None \<Rightarrow> Inl (NoMatchingEndpoint name
                            (map displayName (sql_endpoints_of_items items)))
               | Some ep \<Rightarrow> Inr (item_id ep))"
    unfolding items by (rule resolve_items_fst)
next
  show "set (sql_endpoints_of_items items) = {it \<in> set items. item_type it = Some ''SQLEndpoint''}"
    by (simp add: sql_endpoints_of_items_def)
next
  assume a: "status_code (items_api (fabric e ws tok)) = 200 \<and>
          fst (get_sql_endpoint_for_lakehouse e ws name tok) = Inr eid"
  with res direct have p: "on_items_path (fabric e ws tok) name" by (simp add: on_items_path_def)
  from a have "fst (get_sql_endpoint_for_lakehouse e ws name tok) = Inr eid" by (rule conjunct2)
  then obtain ep where s: "select_items_path (str_lower e) (sql_endpoints_of_items items) name = Some ep"
    and i: "item_id ep = eid"
    unfolding resolve_items_fst [OF p] items by (auto split: option.splits)
  from s have "ep \<in> set (sql_endpoints_of_items items)" by (rule select_items_mem)
  then have "ep \<in> set items" "item_type ep = Some ''SQLEndpoint''"
    by (simp_all add: sql_endpoints_of_items_def)
  with i show "\<exists>ep \<in> set items. item_type ep = Some ''SQLEndpoint'' \<and> item_id ep = eid"
    by blast
qed

theorem direct_failure_falls_back_witness:
  "lakehouse_resolved plain_items_backend ''foo'' \<and>
   status_code (sqlendpoints_api plain_items_backend) = 503 \<and>
   status_code (items_api plain_items_backend) = 200 \<and>
   get_sql_endpoint_for_lakehouse (example_env plain_items_backend) ''ws'' ''foo'' ''token'' =
     (Inr ''e2'', [ListLakehouses, ListSqlEndpoints, ListItems])"
proof -
  let ?e = "example_env plain_items_backend"
  let ?items = "json_value (items_api plain_items_backend)"
  have p1: "lakehouse_resolved plain_items_backend ''foo''" by code_simp
  have p2: "status_code (sqlendpoints_api plain_items_backend) = 503" by code_simp
  have p3: "status_code (items_api plain_items_backend) = 200" by code_simp
  have q1: "lakehouse_resolved (fabric ?e ''ws'' ''token'') ''foo''"
    using p1 by (simp only: fabric_example_env str_lower_example_env)
  have q2: "status_code (sqlendpoints_api (fabric ?e ''ws'' ''token'')) \<noteq> 200"
    by (simp add: fabric_example_env str_lower_example_env p2)
  note a = direct_failure_falls_back [OF q1 q2 refl]
  have t1: "snd (get_sql_endpoint_for_lakehouse ?e ''ws'' ''foo'' ''token'') =
      [ListLakehouses, ListSqlEndpoints, ListItems]"
    using a [THEN conjunct1] .
  have t2: "status_code (items_api plain_items_backend) = 200 \<longrightarrow>
      fst (get_sql_endpoint_for_lakehouse ?e ''ws'' ''foo'' ''token'') =
        (case select_items_path ascii_lower (sql_endpoints_of_items ?items) ''foo'' of
           None \<Rightarrow> Inl (NoMatchingEndpoint ''foo'' (map displayName (sql_endpoints_of_items ?items)))
         | Some ep \<Rightarrow> Inr (item_id ep))"
    using a [THEN conjunct2, THEN conjunct1] by (simp only: fabric_example_env str_lower_example_env)
  have v: "(case select_items_path ascii_lower (sql_endpoints_of_items ?items) ''foo'' of
           None \<Rightarrow> Inl (NoMatchingEndpoint ''foo'' (map displayName (sql_endpoints_of_items ?items)))
         | Some ep \<Rightarrow> Inr (item_id ep)) = Inr ''e2''"
    by code_simp
  from t2 p3 have c: "fst (get_sql_endpoint_for_lakehouse ?e ''ws'' ''foo'' ''token'') = Inr ''e2''"
    by (simp only: v simp_thms)
  from c t1 have "get_sql_endpoint_for_lakehouse ?e ''ws'' ''foo'' ''token'' =
     (Inr ''e2'', [ListLakehouses, ListSqlEndpoints, ListItems])"
    by (simp add: prod_eq_iff)
  with p1 p2 p3 show ?thesis by (intro conjI)
qed

text \<open>
  C9 (as the script behaves). When the direct listing does not answer 200, the items
  listing is requested exactly once. When the items API and the direct API describe the
  same resources, the candidates of the items path are the candidates of the direct
  path. From these candidates the two paths resolve to the same result when no candidate
  contains the name, or the first candidate containing it carries a marker token, or no
  candidate satisfies the marker rule and the first candidate containing the name
  equals it (names compared after \<^verbatim>\<open>str.lower()\<close>); in every other case, the endpoint
  ids being distinct, they resolve to different results.
\<close>

theorem fallback_once_and_parity:
  assumes res: "lakehouse_resolved (fabric e ws2 tok) name"
    and failed: "status_code (sqlendpoints_api (fabric e ws2 tok)) \<noteq> 200"
  shows "count_list (snd (get_sql_endpoint_for_lakehouse e ws2 name tok)) ListItems = 1 \<and>
         (lists_items_of resources (fabric e ws2 tok) \<and>
          lists_endpoints_of resources (fabric e ws1 tok) \<and>
          lakehouse_resolved (fabric e ws1 tok) name \<longrightarrow>
            sql_endpoints_of_items (json_value (items_api (fabric e ws2 tok))) =
              json_value (sqlendpoints_api (fabric e ws1 tok)) \<and>
            (paths_agree_on (str_lower e) (sql_endpoints_of_items resources) name \<longrightarrow>
               fst (get_sql_endpoint_for_lakehouse e ws2 name tok) =
               fst (get_sql_endpoint_for_lakehouse e ws1 name tok)) \<and>
            (\<not> paths_agree_on (str_lower e) (sql_endpoints_of_items resources) name \<and>
             distinct (map item_id (sql_endpoints_of_items resources)) \<longrightarrow>
               fst (get_sql_endpoint_for_lakehouse e ws2 name tok) \<noteq>
               fst (get_sql_endpoint_for_lakehouse e ws1 name tok)))"
proof (rule conjI)
  from res failed have "snd (get_sql_endpoint_for_lakehouse e ws2 name tok) =
      [ListLakehouses, ListSqlEndpoints, ListItems]"
    by (rule resolve_fallback_trace)
  then show "count_list (snd (get_sql_endpoint_for_lakehouse e ws2 name tok)) ListItems = 1"
    by simp
next
  show "lists_items_of resources (fabric e ws2 tok) \<and>
          lists_endpoints_of resources (fabric e ws1 tok) \<and>
          lakehouse_resolved (fabric e ws1 tok) name \<longrightarrow>
            sql_endpoints_of_items (json_value (items_api (fabric e ws2 tok))) =
              json_value (sqlendpoints_api (fabric e ws1 tok)) \<and>
            (paths_agree_on (str_lower e) (sql_endpoints_of_items resources) name \<longrightarrow>
               fst (get_sql_endpoint_for_lakehouse e ws2 name tok) =
               fst (get_sql_endpoint_for_lakehouse e ws1 name tok)) \<and>
            (\<not> paths_agree_on (str_lower e) (sql_endpoints_of_items resources) name \<and>
             distinct (map item_id (sql_endpoints_of_items resources)) \<longrightarrow>
               fst (get_sql_endpoint_for_lakehouse e ws2 name tok) \<noteq>
               fst (get_sql_endpoint_for_lakehouse e ws1 name tok))"
  proof (intro impI)
    assume a: "lists_items_of resources (fabric e ws2 tok) \<and>
          lists_endpoints_of resources (fabric e ws1 tok) \<and>
          lakehouse_resolved (fabric e ws1 tok) name"
    then have ok: "status_code (items_api (fabric e ws2 tok)) = 200"
      and its: "json_value (items_api (fabric e ws2 tok)) = resources"
      and ok1: "status_code (sqlendpoints_api (fabric e ws1 tok)) = 200"
      and eps: "json_value (sqlendpoints_api (fabric e ws1 tok)) = sql_endpoints_of_items resources"
      and res1: "lakehouse_resolved (fabric e ws1 tok) name"
      by (simp_all add: lists_items_of_def lists_endpoints_of_def sql_endpoints_of_items_def)
    from res failed ok have items: "on_items_path (fabric e ws2 tok) name"
      by (simp add: on_items_path_def)
    from res1 ok1 have direct: "on_direct_path (fabric e ws1 tok) name"
      by (simp add: on_direct_path_def)
    have same: "sql_endpoints_of_items (json_value (items_api (fabric e ws2 tok))) =
              json_value (sqlendpoints_api (fabric e ws1 tok))"
      by (simp only: its eps)
    have agree: "fst (get_sql_endpoint_for_lakehouse e ws2 name tok) =
               fst (get_sql_endpoint_for_lakehouse e ws1 name tok)"
      if "paths_agree_on (str_lower e) (sql_endpoints_of_items resources) name"
    proof -
      from that have "select_items_path (str_lower e) (sql_endpoints_of_items resources) name =
          select_direct_path (str_lower e) (sql_endpoints_of_items resources) name"
        by (simp only: select_agree_iff)
      then show ?thesis
        unfolding resolve_items_fst [OF items] resolve_direct_fst [OF direct] its eps by simp
    qed
    have differ: "fst (get_sql_endpoint_for_lakehouse e ws2 name tok) \<noteq>
               fst (get_sql_endpoint_for_lakehouse e ws1 name tok)"
      if "\<not> paths_agree_on (str_lower e) (sql_endpoints_of_items resources) name \<and>
             distinct (map item_id (sql_endpoints_of_items resources))"
    proof -
      from that have "select_items_path (str_lower e) (sql_endpoints_of_items resources) name \<noteq>
          select_direct_path (str_lower e) (sql_endpoints_of_items resources) name"
        and "distinct (map item_id (sql_endpoints_of_items resources))"
        by (simp_all only: select_agree_iff simp_thms)
      then show ?thesis
        unfolding resolve_items_fst [OF items] resolve_direct_fst [OF direct] its eps
        by (rule outcomes_differ)
    qed
    from same agree differ show "sql_endpoints_of_items (json_value (items_api (fabric e ws2 tok))) =
              json_value (sqlendpoints_api (fabric e ws1 tok)) \<and>
            (paths_agree_on (str_lower e) (sql_endpoints_of_items resources) name \<longrightarrow>
               fst (get_sql_endpoint_for_lakehouse e ws2 name tok) =
               fst (get_sql_endpoint_for_lakehouse e ws1 name tok)) \<and>
            (\<not> paths_agree_on (str_lower e) (sql_endpoints_of_items resources) name \<and>
             distinct (map item_id (sql_endpoints_of_items resources)) \<longrightarrow>
               fst (get_sql_endpoint_for_lakehouse e ws2 name tok) \<noteq>
               fst (get_sql_endpoint_for_lakehouse e ws1 name tok))"
      by (intro conjI impI)
  qed
qed

theorem fallback_once_and_parity_witness:
  "lakehouse_resolved marked_items_backend ''foo'' \<and>
   status_code (sqlendpoints_api marked_items_backend) = 404 \<and>
   lists_items_of (marked_endpoints @ [lakehouse_item ''l1'' ''foo'']) marked_items_backend \<and>
   lists_endpoints_of (marked_endpoints @ [lakehouse_item ''l1'' ''foo''])
     marked_direct_backend \<and>
   lakehouse_resolved marked_direct_backend ''foo'' \<and>
   paths_agree_on ascii_lower
     (sql_endpoints_of_items (marked_endpoints @ [lakehouse_item ''l1'' ''foo''])) ''foo'' \<and>
   count_list
     (snd (get_sql_endpoint_for_lakehouse (pair_env marked_direct_backend marked_items_backend)
             ''ws2'' ''foo'' ''token'')) ListItems = 1 \<and>
   sql_endpoints_of_items (json_value (items_api marked_items_backend)) =
     json_value (sqlendpoints_api marked_direct_backend) \<and>
   fst (get_sql_endpoint_for_lakehouse (pair_env marked_direct_backend marked_items_backend)
          ''ws2'' ''foo'' ''token'') = Inr ''e2'' \<and>
   fst (get_sql_endpoint_for_lakehouse (pair_env marked_direct_backend marked_items_backend)
          ''ws1'' ''foo'' ''token'') = Inr ''e2'' \<and>
   lists_items_of (lakehouse_item ''l1'' ''foo'' # lakehouse_item ''l2'' ''baz'' # direct_endpoints)
     same_items_backend \<and>
   lists_endpoints_of
     (lakehouse_item ''l1'' ''foo'' # lakehouse_item ''l2'' ''baz'' # direct_endpoints)
     direct_backend \<and>
   \<not> paths_agree_on ascii_lower
       (sql_endpoints_of_items
          (lakehouse_item ''l1'' ''foo'' # lakehouse_item ''l2'' ''baz'' # direct_endpoints))
       ''foo'' \<and>
   fst (get_sql_endpoint_for_lakehouse (pair_env direct_backend same_items_backend)
          ''ws2'' ''foo'' ''token'') \<noteq>
   fst (get_sql_endpoint_for_lakehouse (pair_env direct_backend same_items_backend)
          ''ws1'' ''foo'' ''token'')"
proof -
  let ?m = "pair_env marked_direct_backend marked_items_backend"
  let ?d = "pair_env direct_backend same_items_backend"
  let ?rm = "marked_endpoints @ [lakehouse_item ''l1'' ''foo'']"
  let ?rd = "lakehouse_item ''l1'' ''foo'' # lakehouse_item ''l2'' ''baz'' # direct_endpoints"
  have p0: "lakehouse_resolved marked_items_backend ''foo''" by code_simp
  have f0: "status_code (sqlendpoints_api marked_items_backend) = 404" by code_simp
  have i0: "lists_items_of ?rm marked_items_backend" by code_simp
  have e0: "lists_endpoints_of ?rm marked_direct_backend" by code_simp
  have r0: "lakehouse_resolved marked_direct_backend ''foo''" by code_simp
  have g0: "paths_agree_on ascii_lower (sql_endpoints_of_items ?rm) ''foo''" by code_simp
  have v0: "fst (get_sql_endpoint_for_lakehouse ?m ''ws1'' ''foo'' ''token'') = Inr ''e2''"
    by code_simp
  have p1: "lakehouse_resolved same_items_backend ''foo''" by code_simp
  have f1: "status_code (sqlendpoints_api same_items_backend) = 404" by code_simp
  have i1: "lists_items_of ?rd same_items_backend" by code_simp
  have e1: "lists_endpoints_of ?rd direct_backend" by code_simp
  have r1: "lakehouse_resolved direct_backend ''foo''" by code_simp
  have g1: "\<not> paths_agree_on ascii_lower (sql_endpoints_of_items ?rd) ''foo''" by code_simp
  have d1: "distinct (map item_id (sql_endpoints_of_items ?rd))" by code_simp
  have q0: "lakehouse_resolved (fabric ?m ''ws2'' ''token'') ''foo''"
    using p0 by (simp only: pair_env_sel)
  have q1: "status_code (sqlendpoints_api (fabric ?m ''ws2'' ''token'')) \<noteq> 200"
    by (simp add: pair_env_sel f0)
  have q2: "lakehouse_resolved (fabric ?d ''ws2'' ''token'') ''foo''"
    using p1 by (simp only: pair_env_sel)
  have q3: "status_code (sqlendpoints_api (fabric ?d ''ws2'' ''token'')) \<noteq> 200"
    by (simp add: pair_env_sel f1)
  note a = fallback_once_and_parity [OF q0 q1, where ?ws1.0 = "''ws1''" and resources = ?rm,
      unfolded pair_env_sel]
  note b = fallback_once_and_parity [OF q2 q3, where ?ws1.0 = "''ws1''" and resources = ?rd,
      unfolded pair_env_sel]
  have c1: "count_list (snd (get_sql_endpoint_for_lakehouse ?m ''ws2'' ''foo'' ''token''))
      ListItems = 1"
    using a by (rule conjunct1)
  from i0 e0 r0 have h0: "lists_items_of ?rm marked_items_backend \<and>
      lists_endpoints_of ?rm marked_direct_backend \<and>
      lakehouse_resolved marked_direct_backend ''foo''" by (intro conjI)
  note a2 = mp [OF a [THEN conjunct2] h0]
  from a2 have c2: "sql_endpoints_of_items (json_value (items_api marked_items_backend)) =
      json_value (sqlendpoints_api marked_direct_backend)" by (rule conjunct1)
  from a2 [THEN conjunct2, THEN conjunct1] g0
  have "fst (get_sql_endpoint_for_lakehouse ?m ''ws2'' ''foo'' ''token'') =
        fst (get_sql_endpoint_for_lakehouse ?m ''ws1'' ''foo'' ''token'')" by (rule mp)
  then have c3: "fst (get_sql_endpoint_for_lakehouse ?m ''ws2'' ''foo'' ''token'') = Inr ''e2''"
    by (simp only: v0)
  from i1 e1 r1 have h1: "lists_items_of ?rd same_items_backend \<and>
      lists_endpoints_of ?rd direct_backend \<and>
      lakehouse_resolved direct_backend ''foo''" by (intro conjI)
  note b2 = mp [OF b [THEN conjunct2] h1]
  from g1 d1 have h2: "\<not> paths_agree_on ascii_lower (sql_endpoints_of_items ?rd) ''foo'' \<and>
      distinct (map item_id (sql_endpoints_of_items ?rd))" by (rule conjI)
  from b2 [THEN conjunct2, THEN conjunct2] h2
  have c4: "fst (get_sql_endpoint_for_lakehouse ?d ''ws2'' ''foo'' ''token'') \<noteq>
        fst (get_sql_endpoint_for_lakehouse ?d ''ws1'' ''foo'' ''token'')" by (rule mp)
  from p0 f0 i0 e0 r0 g0 c1 c2 c3 v0 i1 e1 g1 c4 show ?thesis by (intro conjI)
qed

text \<open>
  C9 as stated does not hold: from the same candidates the direct path selects
  \<open>My Foo data\<close>, which has no marker token, and the items path selects \<open>foo\<close>.
\<close>

theorem paths_disagree_on_same_resources:
  "on_direct_path direct_backend ''foo'' \<and>
   on_items_path same_items_backend ''foo'' \<and>
   sql_endpoints_of_items (json_value (items_api same_items_backend)) =
     json_value (sqlendpoints_api direct_backend) \<and>
   fst (get_sql_endpoint_for_lakehouse (example_env direct_backend) ''ws'' ''foo'' ''token'') =
     Inr ''e2'' \<and>
   fst (get_sql_endpoint_for_lakehouse (example_env same_items_backend) ''ws'' ''foo'' ''token'') =
     Inr ''e3'' \<and>
   fst (get_sql_endpoint_for_lakehouse (example_env same_items_backend) ''ws'' ''foo'' ''token'') \<noteq>
   fst (get_sql_endpoint_for_lakehouse (example_env direct_backend) ''ws'' ''foo'' ''token'')"
proof (intro conjI)
  show "on_direct_path direct_backend ''foo''" by code_simp
  show "on_items_path same_items_backend ''foo''" by code_simp
  show "sql_endpoints_of_items (json_value (items_api same_items_backend)) =
     json_value (sqlendpoints_api direct_backend)" by code_simp
  show "fst (get_sql_endpoint_for_lakehouse (example_env direct_backend) ''ws'' ''foo'' ''token'') =
     Inr ''e2''" by code_simp
  show "fst (get_sql_endpoint_for_lakehouse (example_env same_items_backend) ''ws'' ''foo'' ''token'') =
     Inr ''e3''" by code_simp
  show "fst (get_sql_endpoint_for_lakehouse (example_env same_items_backend) ''ws'' ''foo'' ''token'') \<noteq>
   fst (get_sql_endpoint_for_lakehouse (example_env direct_backend) ''ws'' ''foo'' ''token'')"
    by code_simp
qed

text \<open>
  C10. With \<open>max_wait_minutes\<close> zero or negative and a refresh POST answering 202 with a
  status location, the deadline check fails before the first poll: the run fails with
  \<open>RefreshTimedOut\<close> and no status request has been issued.
\<close>

theorem zero_wait_times_out_unpolled:
  assumes res: "get_sql_endpoint_for_lakehouse e ws name (getToken e ''pbi'') = (Inr eid, evs)"
    and acc: "refresh_accepted (fabric e ws (getToken e ''pbi'')) eid status_url"
    and zero: "mm \<le> 0"
  shows "refresh_sql_endpoint_and_wait e name ws mm =
           (Inl (RefreshTimedOut mm), evs @ [RefreshMetadata eid]) \<and>
         polls_made (snd (refresh_sql_endpoint_and_wait e name ws mm)) = 0"
proof -
  have p: "\<forall>i<(0::nat). status_code (status_api (fabric e ws (getToken e ''pbi'')) status_url i) = 202"
    by simp
  have t: "\<forall>i<(0::nat). pending_elapsed (fabric e ws (getToken e ''pbi'')) i < mm * 60" by simp
  from zero have l: "mm * 60 \<le> pending_elapsed (fabric e ws (getToken e ''pbi'')) 0" by simp
  have r: "refresh_sql_endpoint_and_wait e name ws mm =
           (Inl (RefreshTimedOut mm), evs @ [RefreshMetadata eid])"
    unfolding refresh_after_resolution [OF res] run_times_out_after [OF acc p t l] by simp
  moreover have "polls_made (snd (refresh_sql_endpoint_and_wait e name ws mm)) = 0"
    unfolding r using polls_made_resolved [OF res] by simp
  ultimately show ?thesis by (rule conjI)
qed

theorem zero_wait_times_out_unpolled_witness:
  "refresh_accepted never_done_backend ''e1'' ''https://status/op1'' \<and>
   refresh_sql_endpoint_and_wait (example_env never_done_backend) ''foo'' ''ws'' 0 =
     (Inl (RefreshTimedOut 0), [ListLakehouses, ListSqlEndpoints, RefreshMetadata ''e1'']) \<and>
   polls_made (snd (refresh_sql_endpoint_and_wait (example_env never_done_backend) ''foo''
                      ''ws'' 0)) = 0"
proof -
  let ?e = "example_env never_done_backend"
  have r: "get_sql_endpoint_for_lakehouse ?e ''ws'' ''foo'' (getToken ?e ''pbi'') =
      (Inr ''e1'', [ListLakehouses, ListSqlEndpoints])" by code_simp
  have acc: "refresh_accepted never_done_backend ''e1'' ''https://status/op1''" by code_simp
  have acc': "refresh_accepted (fabric ?e ''ws'' (getToken ?e ''pbi'')) ''e1'' ''https://status/op1''"
    using acc by (simp only: fabric_example_env str_lower_example_env)
  have z: "(0::int) \<le> 0" by simp
  note a = zero_wait_times_out_unpolled [OF r acc' z]
  from a have "refresh_sql_endpoint_and_wait ?e ''foo'' ''ws'' 0 =
      (Inl (RefreshTimedOut 0), [ListLakehouses, ListSqlEndpoints] @ [RefreshMetadata ''e1''])"
    by (rule conjunct1)
  then have c1: "refresh_sql_endpoint_and_wait ?e ''foo'' ''ws'' 0 =
      (Inl (RefreshTimedOut 0), [ListLakehouses, ListSqlEndpoints, RefreshMetadata ''e1''])"
    by simp
  from a have c2: "polls_made (snd (refresh_sql_endpoint_and_wait ?e ''foo'' ''ws'' 0)) = 0"
    by (rule conjunct2)
  from acc c1 c2 show ?thesis by (intro conjI)
qed

end
